theory Spec2Isabelle
  imports Main "HOL-Library.Word" "HOL-Library.Sublist"
begin

unbundle bit_operations_syntax

section \<open>Go values used by the provider\<close>

text \<open>
  A Go \<^verbatim>\<open>error\<close> value is modelled by what the provider reads from it: its message
  (\<^verbatim>\<open>Error()\<close>) and, for an error built by \<^verbatim>\<open>fmt.Errorf\<close> with the verb
  \<^verbatim>\<open>%w\<close>, the error it wraps. A nil error is \<open>None\<close> of \<open>goerror option\<close>.
\<close>

datatype goerror =
    ErrorString string
  | WrapError string goerror

fun Error :: "goerror \<Rightarrow> string" where
  "Error (ErrorString s) = s"
| "Error (WrapError s e) = s"

fun Unwrap :: "goerror \<Rightarrow> goerror option" where
  "Unwrap (ErrorString s) = None"
| "Unwrap (WrapError s e) = Some e"

text \<open>
  \<^verbatim>\<open>time.Duration\<close> is an \<^verbatim>\<open>int64\<close> count of nanoseconds and \<^verbatim>\<open>int\<close> is 64 bits
  wide on the platforms Genkit runs on: both are 64-bit words read as two's complement
  (\<open>sint\<close>), compared with the signed orders \<open>\<le>s\<close> and \<open><s\<close>; \<open>+\<close> and \<open>*\<close> wrap.
\<close>

type_synonym duration = "64 word"
type_synonym goint = "64 word"

definition Second :: duration where
  "Second = 1000000000"

subsection \<open>Strings\<close>

text \<open>
  A Go string is a sequence of bytes, here a \<open>string\<close> whose characters are the bytes.
  \<^verbatim>\<open>strings.ToLower\<close> reads it as UTF-8: a string of ASCII bytes is folded byte by byte,
  and any other string goes through \<^verbatim>\<open>strings.Map(unicode.ToLower, s)\<close>, which decodes
  the runes of the string, maps each one and encodes the results. The functions below
  follow the packages \<^verbatim>\<open>unicode/utf8\<close>, \<^verbatim>\<open>unicode\<close> and \<^verbatim>\<open>strings\<close> of the Go
  library.

  A rune is a code point. \<open>DecodeRune\<close> gives the first rune of a sequence of bytes and
  its width; a byte that starts no well-formed sequence decodes as \<open>RuneError\<close> with
  width 1. \<open>runesOf\<close> is the sequence of runes that \<^verbatim>\<open>for _, c := range s\<close> visits.
  \<open>EncodeRune\<close> is \<^verbatim>\<open>utf8.AppendRune\<close>.
\<close>

type_synonym rune = nat

definition RuneError :: rune where
  "RuneError = 0xFFFD"

definition inRange :: "nat \<Rightarrow> nat \<Rightarrow> nat \<Rightarrow> bool" where
  "inRange lo hi b \<longleftrightarrow> lo \<le> b \<and> b \<le> hi"

fun DecodeRune :: "nat list \<Rightarrow> rune \<times> nat" where
  "DecodeRune [] = (RuneError, 0)"
| "DecodeRune (b0 # rest) =
     (if b0 < 0x80 then (b0, 1)
      else if inRange 0xC2 0xDF b0 then
        (case rest of
           b1 # _ \<Rightarrow>
             if inRange 0x80 0xBF b1 then ((b0 - 0xC0) * 64 + (b1 - 0x80), 2)
             else (RuneError, 1)
         | _ \<Rightarrow> (RuneError, 1))
      else if inRange 0xE0 0xEF b0 then
        (case rest of
           b1 # b2 # _ \<Rightarrow>
             if inRange (if b0 = 0xE0 then 0xA0 else 0x80) (if b0 = 0xED then 0x9F else 0xBF) b1
                \<and> inRange 0x80 0xBF b2
             then ((b0 - 0xE0) * 4096 + (b1 - 0x80) * 64 + (b2 - 0x80), 3)
             else (RuneError, 1)
         | _ \<Rightarrow> (RuneError, 1))
      else if inRange 0xF0 0xF4 b0 then
        (case rest of
           b1 # b2 # b3 # _ \<Rightarrow>
             if inRange (if b0 = 0xF0 then 0x90 else 0x80) (if b0 = 0xF4 then 0x8F else 0xBF) b1
                \<and> inRange 0x80 0xBF b2 \<and> inRange 0x80 0xBF b3
             then ((b0 - 0xF0) * 262144 + (b1 - 0x80) * 4096 + (b2 - 0x80) * 64 + (b3 - 0x80),
                   4)
             else (RuneError, 1)
         | _ \<Rightarrow> (RuneError, 1))
      else (RuneError, 1))"

text \<open>
  The loop over the runes of a string, byte by byte: \<open>skip\<close> counts the bytes that still
  belong to the rune decoded last.
\<close>

fun runesFrom :: "nat \<Rightarrow> nat list \<Rightarrow> rune list" where
  "runesFrom skip [] = []"
| "runesFrom skip (b # bs) =
     (if 0 < skip then runesFrom (skip - 1) bs
      else (case DecodeRune (b # bs) of (r, width) \<Rightarrow> r # runesFrom (width - 1) bs))"

definition runesOf :: "nat list \<Rightarrow> rune list" where
  "runesOf bs = runesFrom 0 bs"

definition EncodeRune :: "rune \<Rightarrow> nat list" where
  "EncodeRune r =
     (if r < 0x80 then [r]
      else if r < 0x800 then [0xC0 + r div 64, 0x80 + r mod 64]
      else if 0x10FFFF < r \<or> inRange 0xD800 0xDFFF r then [0xEF, 0xBF, 0xBD]
      else if r < 0x10000 then [0xE0 + r div 4096, 0x80 + (r div 64) mod 64, 0x80 + r mod 64]
      else [0xF0 + r div 262144, 0x80 + (r div 4096) mod 64, 0x80 + (r div 64) mod 64,
            0x80 + r mod 64])"

text \<open>
  \<^verbatim>\<open>unicode.ToLower\<close> folds the ASCII letters itself and looks every other rune up in
  the case tables of the Unicode standard, \<^verbatim>\<open>unicode.To(unicode.LowerCase, r)\<close>. The
  tables are data of the Go library; the model takes the lookup as a parameter, a
  \<open>caseTable\<close>, and what is proved holds for every table, that of Go among them.
\<close>

type_synonym caseTable = "rune \<Rightarrow> rune"

definition unicodeToLower :: "caseTable \<Rightarrow> rune \<Rightarrow> rune" where
  "unicodeToLower ct r =
     (if r \<le> 0x7F then (if 65 \<le> r \<and> r \<le> 90 then r + 32 else r) else ct r)"

text \<open>
  \<^verbatim>\<open>strings.Map\<close>: the result holds, for each rune of the string in order, the encoding
  of the rune it is mapped to. (The Go function copies the bytes of a prefix of runes that
  the mapping leaves as they are; a well-formed rune is encoded as the bytes it was
  decoded from, so the result is the same.)
\<close>

definition Map :: "(rune \<Rightarrow> rune) \<Rightarrow> string \<Rightarrow> string" where
  "Map mapping s =
     map char_of (concat (map (\<lambda>c. EncodeRune (mapping c)) (runesOf (map of_char s))))"

definition toLowerChar :: "char \<Rightarrow> char" where
  "toLowerChar c =
     (let n = (of_char c :: nat) in if 65 \<le> n \<and> n \<le> 90 then char_of (n + 32) else c)"

definition isASCII :: "string \<Rightarrow> bool" where
  "isASCII s \<longleftrightarrow> list_all (\<lambda>c. (of_char c :: nat) < 0x80) s"

definition ToLower :: "caseTable \<Rightarrow> string \<Rightarrow> string" where
  "ToLower ct s = (if isASCII s then map toLowerChar s else Map (unicodeToLower ct) s)"

text \<open>
  \<open>Contains\<close> is \<^verbatim>\<open>strings.Contains\<close>, and \<open>showInt\<close> is the rendering of an integer by
  the verb \<^verbatim>\<open>%d\<close>.
\<close>

fun HasPrefix :: "string \<Rightarrow> string \<Rightarrow> bool" where
  "HasPrefix s [] = True"
| "HasPrefix [] (p # ps) = False"
| "HasPrefix (c # cs) (p # ps) = (c = p \<and> HasPrefix cs ps)"

fun Contains :: "string \<Rightarrow> string \<Rightarrow> bool" where
  "Contains [] substr = (substr = [])"
| "Contains (c # cs) substr = (HasPrefix (c # cs) substr \<or> Contains cs substr)"

fun digitsOf :: "nat \<Rightarrow> string" where
  "digitsOf n =
     (if n < 10 then [char_of (48 + n)] else digitsOf (n div 10) @ [char_of (48 + n mod 10)])"

definition showInt :: "int \<Rightarrow> string" where
  "showInt i = (if i < 0 then CHR ''-'' # digitsOf (nat (- i)) else digitsOf (nat i))"

section \<open>The retry configuration and the backoff delay\<close>

record RetryConfig =
  MaxRetries :: goint
  BaseDelay :: duration
  MaxDelay :: duration

text \<open>Go's built-in \<^verbatim>\<open>min\<close> on two signed integers.\<close>

definition smin :: "64 word \<Rightarrow> 64 word \<Rightarrow> 64 word" where
  "smin a b = (if a \<le>s b then a else b)"

text \<open>
  The delay of \<^verbatim>\<open>withRetry\<close> and \<^verbatim>\<open>withRetryStructured\<close>:
  \<^verbatim>\<open>min(BaseDelay*time.Duration(1<<(attempt-1)), MaxDelay)\<close>. The constant 1 takes the
  type \<^verbatim>\<open>time.Duration\<close>, so the shift and the product are 64-bit operations: a shift
  count of 64 or more gives 0, and the product wraps around. The loop computes the delay
  only when \<^verbatim>\<open>attempt > 0\<close>, so the shift count is never negative.
\<close>

definition backoffDelay :: "RetryConfig \<Rightarrow> goint \<Rightarrow> duration" where
  "backoffDelay rc attempt =
     smin (BaseDelay rc * push_bit (nat (sint (attempt - 1))) 1) (MaxDelay rc)"

section \<open>Error classification\<close>

definition retryablePatterns :: "string list" where
  "retryablePatterns =
     [''rate limit'', ''too many requests'', ''quota exceeded'', ''service unavailable'',
      ''internal error'', ''timeout'', ''connection reset'', ''temporary failure'',
      ''server error'', ''resource exhausted'']"

fun matchAny :: "string \<Rightarrow> string list \<Rightarrow> bool" where
  "matchAny errStr [] = False"
| "matchAny errStr (pattern # rest) =
     (if Contains errStr pattern then True else matchAny errStr rest)"

definition isRetryable :: "caseTable \<Rightarrow> goerror option \<Rightarrow> bool" where
  "isRetryable ct err =
     (case err of
        None \<Rightarrow> False
      | Some e \<Rightarrow> matchAny (ToLower ct (Error e)) retryablePatterns)"


section \<open>The retry loop\<close>

text \<open>
  What a run of the loop does to its surroundings is recorded in a \<open>world\<close>: how many
  times the closure \<^verbatim>\<open>fn\<close> has been invoked, and the delays of the backoff waits that
  were started, in order.

  The closure takes no argument and calls the remote model, so it is modelled by its
  outcomes: \<open>fn i\<close> is what the invocation that follows \<open>i\<close> earlier ones returns, an
  error (\<open>Inl\<close>) or a result (\<open>Inr\<close>).

  The caller's \<^verbatim>\<open>context.Context\<close> is modelled by what the \<^verbatim>\<open>select\<close> statement of
  the loop observes: \<open>ctx i\<close>, read after \<open>i\<close> invocations of \<^verbatim>\<open>fn\<close>, is \<open>Some e\<close>
  when \<^verbatim>\<open>ctx.Done()\<close> is received first, with \<open>e\<close> the value of \<^verbatim>\<open>ctx.Err()\<close>, and
  \<open>None\<close> when the timer of \<^verbatim>\<open>time.After(delay)\<close> fires first.
\<close>

record world =
  calls :: nat
  waits :: "duration list"

type_synonym Context = "nat \<Rightarrow> goerror option"

definition backoffWait ::
  "RetryConfig \<Rightarrow> Context \<Rightarrow> goint \<Rightarrow> world \<Rightarrow> goerror option \<times> world" where
  "backoffWait rc ctx attempt w =
     (let delay = backoffDelay rc attempt
      in (ctx (calls w), w\<lparr>waits := waits w @ [delay]\<rparr>))"

definition invoke :: "(nat \<Rightarrow> goerror + 'a) \<Rightarrow> world \<Rightarrow> (goerror + 'a) \<times> world" where
  "invoke fn w = (fn (calls w), w\<lparr>calls := Suc (calls w)\<rparr>)"

text \<open>
  The error returned below the loop:
  \<^verbatim>\<open>fmt.Errorf("... failed after %d attempts: %w", MaxRetries+1, lastErr)\<close>, where
  \<open>what\<close> is the text before \<^verbatim>\<open>%d\<close>. When \<^verbatim>\<open>lastErr\<close> is nil, \<^verbatim>\<open>fmt\<close> prints the
  verb as \<^verbatim>\<open>%!w(<nil>)\<close> and the result wraps nothing.
\<close>

definition attemptsError :: "string \<Rightarrow> RetryConfig \<Rightarrow> goerror option \<Rightarrow> goerror" where
  "attemptsError what rc lastErr =
     (let head = what @ showInt (sint (MaxRetries rc + 1)) @ '' attempts: ''
      in case lastErr of
           None \<Rightarrow> ErrorString (head @ ''%!w(<nil>)'')
         | Some e \<Rightarrow> WrapError (head @ Error e) e)"

text \<open>
  The \<^verbatim>\<open>for\<close> loop of \<^verbatim>\<open>withRetry\<close> and of \<^verbatim>\<open>withRetryStructured\<close>, from the test
  \<^verbatim>\<open>attempt <= p.retryConfig.MaxRetries\<close> on. The two Go functions have the same text
  up to the type of the result, the log line and the words of the final error, so both
  are instances of \<open>retryFrom\<close>. The counter wraps like a Go \<^verbatim>\<open>int\<close>; with
  \<^verbatim>\<open>MaxRetries\<close> the largest \<^verbatim>\<open>int\<close> and a closure that always fails transiently the
  loop does not end, which is the value \<open>None\<close>.
\<close>

partial_function (option) retryFrom ::
  "caseTable \<Rightarrow> string \<Rightarrow> RetryConfig \<Rightarrow> Context \<Rightarrow> (nat \<Rightarrow> goerror + 'a) \<Rightarrow> goint \<Rightarrow> goerror option
     \<Rightarrow> world \<Rightarrow> ((goerror + 'a) \<times> world) option" where
  "retryFrom ct what rc ctx fn attempt lastErr w =
     (if attempt \<le>s MaxRetries rc then
        (case (if 0 <s attempt then backoffWait rc ctx attempt w else (None, w)) of
           (Some cerr, w1) \<Rightarrow> Some (Inl cerr, w1)
         | (None, w1) \<Rightarrow>
             (case invoke fn w1 of
                (Inr result, w2) \<Rightarrow> Some (Inr result, w2)
              | (Inl err, w2) \<Rightarrow>
                  if \<not> isRetryable ct (Some err)
                  then Some (Inl (attemptsError what rc (Some err)), w2)
                  else retryFrom ct what rc ctx fn (attempt + 1) (Some err) w2))
      else Some (Inl (attemptsError what rc lastErr), w))"

definition newWorld :: world where
  "newWorld = \<lparr>calls = 0, waits = []\<rparr>"

section \<open>The provider\<close>

text \<open>
  Values of type \<^verbatim>\<open>interface{}\<close>, as far as the provider tells them apart, and maps
  \<^verbatim>\<open>map[string]interface{}\<close>.
\<close>

datatype gvalue =
    VNil
  | VString string
  | VInt int
  | VBool bool
  | VMap "string \<Rightarrow> gvalue option"

type_synonym gmap = "string \<Rightarrow> gvalue option"

text \<open>
  \<^verbatim>\<open>domain.ErrorHandler\<close> is an interface of a package outside these sources. The
  provider holds an implementation in its field \<^verbatim>\<open>errorHandler\<close>; the model takes it
  as a pair of functions, each of which builds an error value (never nil) from the
  message, the fields and, for \<^verbatim>\<open>Wrap\<close>, the error at hand.
\<close>

record ErrorHandler =
  New :: "string \<Rightarrow> gmap \<Rightarrow> goerror"
  Wrap :: "goerror \<Rightarrow> string \<Rightarrow> gmap \<Rightarrow> goerror"

record GoogleAIProviderConfig =
  APIKey :: string
  DefaultModel :: string

text \<open>A Genkit instance, as returned by \<^verbatim>\<open>genkit.Init\<close>.\<close>

datatype Genkit = Genkit nat

text \<open>
  The field \<^verbatim>\<open>logger\<close> is left out: the provider only writes to it. A nil
  \<^verbatim>\<open>*genkit.Genkit\<close> is \<open>None\<close>.
\<close>

record GoogleAIProvider =
  initialized :: bool
  retryConfig :: RetryConfig
  config :: GoogleAIProviderConfig
  errorHandler :: ErrorHandler
  genkit :: "Genkit option"

definition NewGoogleAIProvider :: "ErrorHandler \<Rightarrow> GoogleAIProvider" where
  "NewGoogleAIProvider eh =
     (let retryConfig = \<lparr>MaxRetries = 3, BaseDelay = 1 * Second, MaxDelay = 30 * Second\<rparr>
      in \<lparr>initialized = False,
          retryConfig = retryConfig,
          config = \<lparr>APIKey = [], DefaultModel = []\<rparr>,
          errorHandler = eh,
          genkit = None\<rparr>)"

text \<open>
  \<^verbatim>\<open>parseConfig\<close>: a type assertion \<^verbatim>\<open>config[k].(string)\<close> succeeds when the key is
  present with a string value.
\<close>

definition asString :: "gvalue option \<Rightarrow> string option" where
  "asString v = (case v of Some (VString s) \<Rightarrow> Some s | _ \<Rightarrow> None)"

definition parseConfig ::
  "gmap \<Rightarrow> GoogleAIProviderConfig \<Rightarrow> goerror option \<times> GoogleAIProviderConfig" where
  "parseConfig cfg googleConfig =
     (let c1 = (case asString (cfg ''api_key'') of
                  Some apiKey \<Rightarrow> googleConfig\<lparr>APIKey := apiKey\<rparr>
                | None \<Rightarrow> googleConfig);
          c2 = (case asString (cfg ''default_model'') of
                  Some defaultModel \<Rightarrow> c1\<lparr>DefaultModel := defaultModel\<rparr>
                | None \<Rightarrow> c1)
      in (None, c2))"

text \<open>
  What the two library calls of \<^verbatim>\<open>Initialize\<close> return on one call of it:
  \<^verbatim>\<open>genkit.Init(ctx)\<close>, and \<^verbatim>\<open>googleAIPlugin.Init(ctx, genkitInstance)\<close> for the
  plugin built with the given API key.
\<close>

record InitEnv =
  genkitInit :: "goerror + Genkit"
  pluginInit :: "string \<Rightarrow> Genkit \<Rightarrow> goerror option"

definition Initialize ::
  "GoogleAIProvider \<Rightarrow> InitEnv \<Rightarrow> gmap \<Rightarrow> goerror option \<times> GoogleAIProvider" where
  "Initialize p ie cfg =
     (case parseConfig cfg \<lparr>APIKey = [], DefaultModel = []\<rparr> of
        (Some err, googleConfig) \<Rightarrow>
          (Some (Wrap (errorHandler p) err ''failed to parse configuration''
                   (Map.empty(''config'' \<mapsto> VMap cfg))), p)
      | (None, googleConfig) \<Rightarrow>
          if APIKey googleConfig = [] then
            (Some (New (errorHandler p) ''Google AI API key is required''
                     (Map.empty(''config'' \<mapsto> VMap cfg))), p)
          else
            let googleConfig =
                  (if DefaultModel googleConfig = []
                   then googleConfig\<lparr>DefaultModel := ''gemini-1.5-flash''\<rparr>
                   else googleConfig);
                p1 = p\<lparr>config := googleConfig\<rparr>
            in (case genkitInit ie of
                 Inl err \<Rightarrow>
                   (Some (Wrap (errorHandler p) err ''failed to initialize Genkit''
                            (Map.empty(''api_key_length'' \<mapsto>
                               VInt (int (length (APIKey googleConfig)))))),
                    p1)
               | Inr genkitInstance \<Rightarrow>
                   (case pluginInit ie (APIKey googleConfig) genkitInstance of
                      Some err \<Rightarrow>
                        (Some (Wrap (errorHandler p) err ''failed to initialize Google AI plugin''
                                 (Map.empty(''api_key_length'' \<mapsto>
                                    VInt (int (length (APIKey googleConfig)))))),
                         p1)
                    | None \<Rightarrow>
                        (None, p1\<lparr>genkit := Some genkitInstance, initialized := True\<rparr>))))"

definition GetModel :: "GoogleAIProvider \<Rightarrow> string" where
  "GetModel p =
     (if DefaultModel (config p) = [] then ''gemini-1.5-flash'' else DefaultModel (config p))"

definition IsAvailable :: "GoogleAIProvider \<Rightarrow> bool" where
  "IsAvailable p \<longleftrightarrow> APIKey (config p) \<noteq> [] \<and> initialized p"

subsection \<open>Calls to the model\<close>

text \<open>
  A request to Genkit: the instance, the model name given to
  \<^verbatim>\<open>googlegenai.GoogleAIModel\<close>, the prompt of \<^verbatim>\<open>ai.WithPrompt\<close> and, for a structured
  call, the output type of \<^verbatim>\<open>ai.WithOutputType\<close>. The response is kept as its text.
\<close>

record request =
  reqGenkit :: "Genkit option"
  reqModel :: string
  reqPrompt :: string
  reqOutputType :: "string option"

datatype ModelResponse = ModelResponse (Text: string)

text \<open>
  The surroundings of one call of a provider method: \<open>generate env i r\<close> is what
  \<^verbatim>\<open>genkit.Generate\<close> returns for the request \<open>r\<close> when \<open>i\<close> requests went before
  it, \<open>sprintV\<close> is the rendering of a parameter map by the verb \<^verbatim>\<open>%v\<close>, and
  \<open>elapsed\<close> is the reading of \<^verbatim>\<open>time.Since(startTime)\<close>.
\<close>

record GenkitEnv =
  generate :: "nat \<Rightarrow> request \<Rightarrow> goerror + ModelResponse"
  sprintV :: "gmap \<Rightarrow> string"
  elapsed :: duration

text \<open>\<^verbatim>\<open>genkit.GenerateText\<close> is \<^verbatim>\<open>genkit.Generate\<close> followed by \<^verbatim>\<open>Text()\<close>.\<close>

definition genkitGenerateText :: "GenkitEnv \<Rightarrow> nat \<Rightarrow> request \<Rightarrow> goerror + string" where
  "genkitGenerateText env i r =
     (case generate env i r of Inl err \<Rightarrow> Inl err | Inr result \<Rightarrow> Inr (Text result))"

definition withRetry ::
  "caseTable \<Rightarrow> GoogleAIProvider \<Rightarrow> Context \<Rightarrow> (nat \<Rightarrow> goerror + string)
     \<Rightarrow> ((goerror + string) \<times> world) option" where
  "withRetry ct p ctx fn =
     retryFrom ct ''google AI request failed after '' (retryConfig p) ctx fn 0 None newWorld"

definition withRetryStructured ::
  "caseTable \<Rightarrow> GoogleAIProvider \<Rightarrow> Context \<Rightarrow> (nat \<Rightarrow> goerror + ModelResponse)
     \<Rightarrow> ((goerror + ModelResponse) \<times> world) option" where
  "withRetryStructured ct p ctx fn =
     retryFrom ct ''google AI structured request failed after '' (retryConfig p) ctx fn 0 None
       newWorld"

text \<open>
  The provider's methods return, next to their result, the provider after the call (the
  receiver is a pointer) and the world of the call.
\<close>

definition GenerateText ::
  "caseTable \<Rightarrow> GoogleAIProvider \<Rightarrow> GenkitEnv \<Rightarrow> Context \<Rightarrow> string
     \<Rightarrow> ((goerror + string) \<times> GoogleAIProvider \<times> world) option" where
  "GenerateText ct p env ctx prompt =
     (if \<not> initialized p then
        Some (Inl (ErrorString ''provider not initialized''), p, newWorld)
      else
        map_option (\<lambda>(response, w). (response, p, w))
          (withRetry ct p ctx (\<lambda>i. genkitGenerateText env i
             \<lparr>reqGenkit = genkit p, reqModel = GetModel p, reqPrompt = prompt,
              reqOutputType = None\<rparr>)))"

definition GenerateWithStructuredOutput ::
  "caseTable \<Rightarrow> GoogleAIProvider \<Rightarrow> GenkitEnv \<Rightarrow> Context \<Rightarrow> string \<Rightarrow> string
     \<Rightarrow> ((goerror + ModelResponse) \<times> GoogleAIProvider \<times> world) option" where
  "GenerateWithStructuredOutput ct p env ctx prompt outputType =
     (if \<not> initialized p then
        Some (Inl (ErrorString ''provider not initialized''), p, newWorld)
      else
        map_option (\<lambda>(response, w). (response, p, w))
          (withRetryStructured ct p ctx (\<lambda>i. generate env i
             \<lparr>reqGenkit = genkit p, reqModel = GetModel p, reqPrompt = prompt,
              reqOutputType = Some outputType\<rparr>)))"

record ToolCallResult =
  Result :: gvalue
  Success :: bool
  ToolError :: "goerror option"
  Duration :: duration
  Metadata :: gmap

definition toolPromptOf :: "GenkitEnv \<Rightarrow> string \<Rightarrow> gmap \<Rightarrow> string" where
  "toolPromptOf env toolName params =
     ''Execute tool '' @ [CHR 0x27] @ toolName @ [CHR 0x27] @ '' with parameters: '' @
     sprintV env params @ ''. Return the result in a structured format.''"

definition CallTool ::
  "caseTable \<Rightarrow> GoogleAIProvider \<Rightarrow> GenkitEnv \<Rightarrow> Context \<Rightarrow> string \<Rightarrow> gmap
     \<Rightarrow> ((ToolCallResult option \<times> goerror option) \<times> GoogleAIProvider \<times> world) option" where
  "CallTool ct p env ctx toolName params =
     (if \<not> initialized p then
        Some ((None, Some (ErrorString ''provider not initialized'')), p, newWorld)
      else if toolName = [] then
        Some ((Some \<lparr>Result = VNil, Success = False,
                      ToolError = Some (ErrorString ''tool name cannot be empty''),
                      Duration = elapsed env, Metadata = Map.empty\<rparr>,
               Some (ErrorString ''tool name cannot be empty'')), p, newWorld)
      else
        let toolPrompt = toolPromptOf env toolName params
        in map_option
             (\<lambda>(r, w).
                case r of
                  Inl err \<Rightarrow>
                    ((Some \<lparr>Result = VNil, Success = False, ToolError = Some err,
                            Duration = elapsed env,
                            Metadata = [''provider'' \<mapsto> VString ''googleai'',
                                        ''model'' \<mapsto> VString (GetModel p),
                                        ''tool_name'' \<mapsto> VString toolName,
                                        ''error_type'' \<mapsto> VString ''generation_failed'']\<rparr>,
                      Some err), p, w)
                | Inr response \<Rightarrow>
                    ((Some \<lparr>Result = VString response, Success = True, ToolError = None,
                            Duration = elapsed env,
                            Metadata = [''provider'' \<mapsto> VString ''googleai'',
                                        ''model'' \<mapsto> VString (GetModel p),
                                        ''tool_name'' \<mapsto> VString toolName,
                                        ''prompt_used'' \<mapsto> VString toolPrompt,
                                        ''response_len'' \<mapsto> VInt (int (length response))]\<rparr>,
                      None), p, w))
             (withRetry ct p ctx (\<lambda>i. genkitGenerateText env i
                \<lparr>reqGenkit = genkit p, reqModel = GetModel p, reqPrompt = toolPrompt,
                 reqOutputType = None\<rparr>)))"

section \<open>Histories of a provider\<close>

text \<open>
  A provider is shared through a pointer and \<^verbatim>\<open>Initialize\<close> is the only method that
  assigns to its fields. \<open>initializeAll p cs\<close> runs the calls \<open>cs\<close> of \<^verbatim>\<open>Initialize\<close>
  in order, each with its configuration map and with what the library returned to it,
  and gives the list of returned errors and the provider after the last call.
\<close>

fun initializeAll ::
  "GoogleAIProvider \<Rightarrow> (InitEnv \<times> gmap) list \<Rightarrow> goerror option list \<times> GoogleAIProvider" where
  "initializeAll p [] = ([], p)"
| "initializeAll p ((ie, cfg) # cs) =
     (case Initialize p ie cfg of
        (r, p') \<Rightarrow> (case initializeAll p' cs of (rs, p'') \<Rightarrow> (r # rs, p'')))"

section \<open>Describing runs of the retry loop\<close>

text \<open>
  \<open>transientFailures ct fn n\<close>: each of the first \<open>n\<close> invocations of the closure returns
  an error that \<open>isRetryable\<close> accepts. \<open>timerFirst ctx n\<close>: in each of the first \<open>n\<close>
  backoff waits the timer fires before the context is done.
\<close>

definition transientFailures :: "caseTable \<Rightarrow> (nat \<Rightarrow> goerror + 'a) \<Rightarrow> nat \<Rightarrow> bool" where
  "transientFailures ct fn n \<longleftrightarrow>
     list_all (\<lambda>i. case fn i of Inl e \<Rightarrow> isRetryable ct (Some e) | Inr x \<Rightarrow> False) [0..<n]"

definition timerFirst :: "Context \<Rightarrow> nat \<Rightarrow> bool" where
  "timerFirst ctx n \<longleftrightarrow> list_all (\<lambda>i. ctx i = None) [1..<Suc n]"

definition errOf :: "goerror + 'a \<Rightarrow> goerror option" where
  "errOf r = (case r of Inl e \<Rightarrow> Some e | Inr x \<Rightarrow> None)"

text \<open>
  The delays of the waits before the attempts \<open>1\<close> to \<open>n\<close>, and the delays of the waits
  of \<open>n\<close> passes through the loop that start at the counter \<open>a\<close>.
\<close>

definition delaysUpTo :: "RetryConfig \<Rightarrow> nat \<Rightarrow> duration list" where
  "delaysUpTo rc n = map (\<lambda>k. backoffDelay rc (word_of_nat k)) [1..<Suc n]"

fun delaysFrom :: "RetryConfig \<Rightarrow> goint \<Rightarrow> nat \<Rightarrow> duration list" where
  "delaysFrom rc a 0 = []"
| "delaysFrom rc a (Suc n) =
     (if 0 <s a then [backoffDelay rc a] else []) @ delaysFrom rc (a + 1) n"

subsection \<open>Concrete surroundings\<close>

text \<open>
  An error handler that keeps the message; a case table that lowers the capital letters
  of Latin-1, the dotted capital I (U+0130, to \<open>i\<close>) and the Kelvin sign (U+212A, to
  \<open>k\<close>) as the table of Go does, and no other rune; a context that is never done and a
  context that is done during the wait after \<open>k\<close> invocations; and closures that fail
  \<open>n\<close> times with a rate-limit error before they succeed or before they fail with an
  error that no pattern matches.
\<close>

definition plainHandler :: ErrorHandler where
  "plainHandler =
     \<lparr>New = (\<lambda>msg fields. ErrorString msg),
      Wrap = (\<lambda>err msg fields. WrapError (msg @ '': '' @ Error err) err)\<rparr>"

definition sampleTable :: caseTable where
  "sampleTable r =
     (if r = 0x130 then 0x69 else if r = 0x212A then 0x6B
      else if inRange 0xC0 0xDE r \<and> r \<noteq> 0xD7 then r + 32 else r)"

definition neverDone :: Context where
  "neverDone i = None"

definition cancelledAfter :: "nat \<Rightarrow> Context" where
  "cancelledAfter k i = (if i = k then Some (ErrorString ''context canceled'') else None)"

definition rateLimited :: goerror where
  "rateLimited = ErrorString ''429 Too Many Requests''"

text \<open>The message \<^verbatim>\<open>"T\u0130MEOUT"\<close>, with a dotted capital I, in UTF-8.\<close>

definition dottedTimeout :: goerror where
  "dottedTimeout = ErrorString ([CHR ''T'', CHR 0xC4, CHR 0xB0] @ ''MEOUT'')"

definition failThenSucceed :: "nat \<Rightarrow> nat \<Rightarrow> goerror + string" where
  "failThenSucceed n i = (if i < n then Inl rateLimited else Inr ''ok'')"

definition failThenRespond :: "nat \<Rightarrow> nat \<Rightarrow> goerror + ModelResponse" where
  "failThenRespond n i = (if i < n then Inl rateLimited else Inr (ModelResponse ''{}''))"

definition invalidOutput :: goerror where
  "invalidOutput = ErrorString ''model output does not match the schema: missing field entities''"

definition failThenInvalid :: "nat \<Rightarrow> nat \<Rightarrow> goerror + string" where
  "failThenInvalid n i = (if i < n then Inl rateLimited else Inl invalidOutput)"

text \<open>
  A closure that fails \<open>n\<close> times with the error \<^verbatim>\<open>"T\u0130MEOUT"\<close> and then with an
  error that no pattern matches.
\<close>

definition dottedThenInvalid :: "nat \<Rightarrow> nat \<Rightarrow> goerror + 'a" where
  "dottedThenInvalid n i = (if i < n then Inl dottedTimeout else Inl invalidOutput)"

definition readyProvider :: GoogleAIProvider where
  "readyProvider =
     (NewGoogleAIProvider plainHandler)
       \<lparr>initialized := True,
        config := \<lparr>APIKey = ''key'', DefaultModel = ''gemini-1.5-flash''\<rparr>,
        genkit := Some (Genkit 0)\<rparr>"

definition stubEnv :: "(nat \<Rightarrow> goerror + ModelResponse) \<Rightarrow> GenkitEnv" where
  "stubEnv outcomes =
     \<lparr>generate = (\<lambda>i r. outcomes i), sprintV = (\<lambda>m. ''map[]''), elapsed = 0\<rparr>"

definition alwaysInvalid :: "nat \<Rightarrow> goerror + ModelResponse" where
  "alwaysInvalid i = Inl invalidOutput"

text \<open>
  Library results and configuration maps for \<^verbatim>\<open>Initialize\<close>: a library that starts,
  a map with an API key and a map without one; and the request of a structured call.
\<close>

definition workingInit :: InitEnv where
  "workingInit = \<lparr>genkitInit = Inr (Genkit 0), pluginInit = (\<lambda>key g. None)\<rparr>"

definition keyConfig :: gmap where
  "keyConfig = [''api_key'' \<mapsto> VString ''key'']"

definition noKeyConfig :: gmap where
  "noKeyConfig = [''default_model'' \<mapsto> VString ''gemini-2.0-flash'']"

definition entityRequest :: request where
  "entityRequest =
     \<lparr>reqGenkit = genkit readyProvider, reqModel = GetModel readyProvider,
      reqPrompt = ''List the entities.'', reqOutputType = Some ''EntityList''\<rparr>"

section \<open>Fallback between providers\<close>

text \<open>
  The manager as the sources declare it: a map from names to providers, the name of the
  primary provider and the name of the fallback provider. The providers are values of
  \<^verbatim>\<open>GoogleAIProvider\<close>, the implementation of the interface \<^verbatim>\<open>AIProvider\<close> that the
  sources hold.
\<close>

record LegacyProviderManager =
  providers :: "string \<Rightarrow> GoogleAIProvider option"
  primary :: string
  fallback :: string

text \<open>
  Modelled from the spec: the two providers that a Gateway call may attempt, by their
  part in section 4.8.
\<close>

datatype role = Primary | Fallback

text \<open>
  Modelled from the spec: the sources declare \<^verbatim>\<open>LegacyProviderManager\<close> and no method
  of it. The call on the primary provider, with the roles that were attempted and whether
  the outcome sends the Gateway to the fallback: the primary is unavailable (section 4.8,
  and \<^verbatim>\<open>ProviderUnavailableError\<close> of section 7), or its call failed after all of its
  \<^verbatim>\<open>MaxRetries+1\<close> attempts were made.
\<close>

definition primaryAttempt ::
  "caseTable \<Rightarrow> LegacyProviderManager \<Rightarrow> (string \<Rightarrow> GenkitEnv) \<Rightarrow> (string \<Rightarrow> Context) \<Rightarrow> string
     \<Rightarrow> ((goerror + string) \<times> role list \<times> bool) option" where
  "primaryAttempt ct m envs ctxs prompt =
     (case providers m (primary m) of
        None \<Rightarrow> Some (Inl (ErrorString ''provider unavailable''), [], True)
      | Some p \<Rightarrow>
          if \<not> IsAvailable p then Some (Inl (ErrorString ''provider unavailable''), [], True)
          else
            map_option
              (\<lambda>(r, p', w).
                 (r, [Primary],
                  (case r of
                     Inl err \<Rightarrow> int (calls w) = sint (MaxRetries (retryConfig p)) + 1
                   | Inr text \<Rightarrow> False)))
              (GenerateText ct p (envs (primary m)) (ctxs (primary m)) prompt))"

text \<open>
  Modelled from the spec: the Gateway call over a manager, which the sources do not
  hold. Section 4.8: "If a fallback provider is configured and the primary is unavailable
  or exhausts retries, the Gateway attempts the fallback once before surfacing failure."
  A fallback is configured when the name in \<^verbatim>\<open>fallback\<close> is registered in
  \<^verbatim>\<open>providers\<close>.
\<close>

definition gatewayGenerateText ::
  "caseTable \<Rightarrow> LegacyProviderManager \<Rightarrow> (string \<Rightarrow> GenkitEnv) \<Rightarrow> (string \<Rightarrow> Context) \<Rightarrow> string
     \<Rightarrow> ((goerror + string) \<times> role list) option" where
  "gatewayGenerateText ct m envs ctxs prompt =
     (case primaryAttempt ct m envs ctxs prompt of
        None \<Rightarrow> None
      | Some (Inr text, tr, trigger) \<Rightarrow> Some (Inr text, tr)
      | Some (Inl err, tr, trigger) \<Rightarrow>
          (case providers m (fallback m) of
             None \<Rightarrow> Some (Inl err, tr)
           | Some f \<Rightarrow>
               if trigger then
                 map_option (\<lambda>(r, f', w). (r, tr @ [Fallback]))
                   (GenerateText ct f (envs (fallback m)) (ctxs (fallback m)) prompt)
               else Some (Inl err, tr)))"

text \<open>
  Modelled from the spec: the first condition of section 4.8 under which the fallback is
  attempted, "the primary is unavailable": it is not registered, or \<^verbatim>\<open>IsAvailable\<close> is
  false.
\<close>

definition primaryUnavailable :: "LegacyProviderManager \<Rightarrow> bool" where
  "primaryUnavailable m \<longleftrightarrow>
     (case providers m (primary m) of None \<Rightarrow> True | Some p \<Rightarrow> \<not> IsAvailable p)"

text \<open>
  Modelled from the spec: the second condition of section 4.8, the primary "exhausts
  retries": its call fails after \<^verbatim>\<open>MaxRetries+1\<close> attempts.
\<close>

definition primaryExhausts ::
  "caseTable \<Rightarrow> LegacyProviderManager \<Rightarrow> (string \<Rightarrow> GenkitEnv) \<Rightarrow> (string \<Rightarrow> Context) \<Rightarrow> string \<Rightarrow> bool" where
  "primaryExhausts ct m envs ctxs prompt \<longleftrightarrow>
     (case providers m (primary m) of
        None \<Rightarrow> False
      | Some p \<Rightarrow>
          IsAvailable p \<and>
          (case GenerateText ct p (envs (primary m)) (ctxs (primary m)) prompt of
             None \<Rightarrow> False
           | Some (r, p', w) \<Rightarrow>
               (case r of
                  Inl err \<Rightarrow> int (calls w) = sint (MaxRetries (retryConfig p)) + 1
                | Inr text \<Rightarrow> False)))"

text \<open>
  A manager with two ready providers, the primary behind a model that is rate limited for
  nine requests and the fallback behind a model that answers.
\<close>

definition demoManager :: LegacyProviderManager where
  "demoManager =
     \<lparr>providers = [''googleai'' \<mapsto> readyProvider, ''backup'' \<mapsto> readyProvider],
      primary = ''googleai'', fallback = ''backup''\<rparr>"

definition demoEnvs :: "string \<Rightarrow> GenkitEnv" where
  "demoEnvs name =
     (if name = ''googleai'' then stubEnv (failThenRespond 9) else stubEnv (failThenRespond 0))"

definition demoCtxs :: "string \<Rightarrow> Context" where
  "demoCtxs name = neverDone"

section \<open>Arithmetic of the counter and of the delay\<close>

lemma sint_succ:
  fixes a :: "64 word"
  assumes "0 \<le> sint a" "sint a + 1 < 2 ^ 63"
  shows "sint (a + 1) = sint a + 1"
proof -
  from assms have "- (2 ^ 63) \<le> sint a + 1" by linarith
  with assms(2) show ?thesis
    by (simp add: sint_word_ariths signed_take_bit_int_eq_self)
qed

lemma sint_of_nat64:
  assumes "int n < 2 ^ 63"
  shows "sint (word_of_nat n :: 64 word) = int n"
proof -
  from assms have "signed_take_bit 63 (int n) = int n"
    by (simp add: signed_take_bit_int_eq_self)
  then show ?thesis
    by (simp add: signed_of_nat)
qed




section \<open>The loop, pass by pass\<close>

lemma retryFrom_step:
  assumes "a \<le>s MaxRetries rc"
      and "fn (calls w) = Inl e" "isRetryable ct (Some e)"
      and "0 <s a \<longrightarrow> ctx (calls w) = None"
  shows "retryFrom ct what rc ctx fn a le w =
         retryFrom ct what rc ctx fn (a + 1) (Some e)
           (w\<lparr>waits := waits w @ delaysFrom rc a 1, calls := Suc (calls w)\<rparr>)"
  using assms
  by (subst retryFrom.simps) (simp add: backoffWait_def invoke_def Let_def)

lemma retryFrom_steps:
  assumes "0 \<le> sint a" and "sint a + int n \<le> sint (MaxRetries rc) + 1"
      and "sint a + int n < 2 ^ 63"
      and "\<forall>i<n. \<exists>e. fn (calls w + i) = Inl e \<and> isRetryable ct (Some e)"
      and "\<forall>i<n. 0 < sint a + int i \<longrightarrow> ctx (calls w + i) = None"
  shows "retryFrom ct what rc ctx fn a le w =
         retryFrom ct what rc ctx fn (a + of_nat n)
           (if n = 0 then le else errOf (fn (calls w + (n - 1))))
           (w\<lparr>waits := waits w @ delaysFrom rc a n, calls := calls w + n\<rparr>)"
  using assms
proof (induction n arbitrary: a le w)
  case 0
  then show ?case by simp
next
  case (Suc n)
  from Suc.prems(4) obtain e where e: "fn (calls w) = Inl e" "isRetryable ct (Some e)"
    by force
  have "sint a \<le> sint (MaxRetries rc)" using Suc.prems(2) by linarith
  then have le_a: "a \<le>s MaxRetries rc" by (simp add: word_sle_eq)
  have c0: "0 <s a \<longrightarrow> ctx (calls w) = None"
    using Suc.prems(5) [rule_format, of 0] by (simp add: word_sless_alt)
  have s1: "sint (a + 1) = sint a + 1"
    by (rule sint_succ) (use Suc.prems(1,3) in linarith)+
  let ?w = "w\<lparr>waits := waits w @ delaysFrom rc a 1, calls := Suc (calls w)\<rparr>"
  have step: "retryFrom ct what rc ctx fn a le w = retryFrom ct what rc ctx fn (a + 1) (Some e) ?w"
    by (rule retryFrom_step [where fn = fn and w = w and ctx = ctx, OF le_a e c0])
  have p1: "0 \<le> sint (a + 1)" using s1 Suc.prems(1) by simp
  have p2: "sint (a + 1) + int n \<le> sint (MaxRetries rc) + 1" using s1 Suc.prems(2) by simp
  have p3: "sint (a + 1) + int n < 2 ^ 63" using s1 Suc.prems(3) by simp
  have p4: "\<forall>i<n. \<exists>e. fn (calls ?w + i) = Inl e \<and> isRetryable ct (Some e)"
  proof (intro allI impI)
    fix i assume "i < n"
    then show "\<exists>e. fn (calls ?w + i) = Inl e \<and> isRetryable ct (Some e)"
      using Suc.prems(4) [rule_format, of "Suc i"] by simp
  qed
  have p5: "\<forall>i<n. 0 < sint (a + 1) + int i \<longrightarrow> ctx (calls ?w + i) = None"
  proof (intro allI impI)
    fix i assume "i < n" "0 < sint (a + 1) + int i"
    then show "ctx (calls ?w + i) = None"
      using Suc.prems(5) [rule_format, of "Suc i"] s1 by simp
  qed
  have "retryFrom ct what rc ctx fn (a + 1) (Some e) ?w =
        retryFrom ct what rc ctx fn (a + 1 + of_nat n)
           (if n = 0 then Some e else errOf (fn (calls ?w + (n - 1))))
           (?w\<lparr>waits := waits ?w @ delaysFrom rc (a + 1) n, calls := calls ?w + n\<rparr>)"
    by (rule Suc.IH) (rule p1 p2 p3 p4 p5)+
  also have "a + 1 + of_nat n = a + of_nat (Suc n)" by simp
  also have "(if n = 0 then Some e else errOf (fn (calls ?w + (n - 1)))) =
             errOf (fn (calls w + (Suc n - 1)))"
    using e by (cases n) (simp_all add: errOf_def)
  also have "(?w\<lparr>waits := waits ?w @ delaysFrom rc (a + 1) n, calls := calls ?w + n\<rparr>) =
             (w\<lparr>waits := waits w @ delaysFrom rc a (Suc n), calls := calls w + Suc n\<rparr>)"
    by simp
  finally show ?case using step by simp
qed

lemma delaysFrom_of_nat:
  assumes "int (j + n) \<le> 2 ^ 63"
  shows "delaysFrom rc (word_of_nat j) n =
         map (\<lambda>k. backoffDelay rc (word_of_nat k)) (filter (\<lambda>k. 0 < k) [j..<j + n])"
  using assms
proof (induction n arbitrary: j)
  case 0
  then show ?case by simp
next
  case (Suc n)
  have j: "sint (word_of_nat j :: 64 word) = int j"
    by (rule sint_of_nat64) (use Suc.prems in simp)
  have "delaysFrom rc (word_of_nat (Suc j)) n =
        map (\<lambda>k. backoffDelay rc (word_of_nat k)) (filter (\<lambda>k. 0 < k) [Suc j..<Suc j + n])"
    by (rule Suc.IH) (use Suc.prems in simp)
  moreover have "[j..<j + Suc n] = j # [Suc j..<Suc j + n]"
    by (simp add: upt_rec)
  ultimately show ?case
    using j by (simp add: word_sless_alt add.commute)
qed

lemma delaysFrom_0:
  assumes "int n \<le> 2 ^ 63"
  shows "delaysFrom rc 0 n = delaysUpTo rc (n - 1)"
proof -
  have "filter (\<lambda>k. 0 < k) [0..<n] = [1..<n]"
  proof (cases n)
    case 0
    then show ?thesis by simp
  next
    case (Suc k)
    have "filter (\<lambda>i. 0 < i) [Suc 0..<Suc k] = [Suc 0..<Suc k]"
      by (rule filter_True) auto
    then show ?thesis using Suc by (simp add: upt_rec [of 0])
  qed
  moreover have "[1..<n] = [1..<Suc (n - 1)]" by (cases n) simp_all
  ultimately show ?thesis
    using delaysFrom_of_nat [of 0 n rc] assms by (simp add: delaysUpTo_def)
qed

lemma delaysUpTo_snoc:
  "delaysUpTo rc (n - 1) @ (if 0 < n then [backoffDelay rc (word_of_nat n)] else []) =
   delaysUpTo rc n"
  by (cases n) (simp_all add: delaysUpTo_def)

lemma retryFrom_reach:
  assumes "int n \<le> sint (MaxRetries rc) + 1" and "int n < 2 ^ 63"
      and "\<forall>i<n. \<exists>e. fn i = Inl e \<and> isRetryable ct (Some e)"
      and "\<forall>i<n. 0 < i \<longrightarrow> ctx i = None"
  shows "retryFrom ct what rc ctx fn 0 None newWorld =
         retryFrom ct what rc ctx fn (word_of_nat n)
           (if n = 0 then None else errOf (fn (n - 1)))
           \<lparr>calls = n, waits = delaysUpTo rc (n - 1)\<rparr>"
proof -
  have "retryFrom ct what rc ctx fn 0 None newWorld =
        retryFrom ct what rc ctx fn (0 + of_nat n)
          (if n = 0 then None else errOf (fn (calls newWorld + (n - 1))))
          (newWorld\<lparr>waits := waits newWorld @ delaysFrom rc 0 n, calls := calls newWorld + n\<rparr>)"
    by (rule retryFrom_steps) (use assms in \<open>simp_all add: newWorld_def\<close>)
  moreover have "delaysFrom rc 0 n = delaysUpTo rc (n - 1)"
    by (rule delaysFrom_0) (use assms(2) in simp)
  ultimately show ?thesis by (simp add: newWorld_def)
qed

lemma retryFrom_success:
  assumes "int n \<le> sint (MaxRetries rc)"
      and "\<forall>i<n. \<exists>e. fn i = Inl e \<and> isRetryable ct (Some e)"
      and "\<forall>i. 0 < i \<and> i \<le> n \<longrightarrow> ctx i = None"
      and "fn n = Inr v"
  shows "retryFrom ct what rc ctx fn 0 None newWorld =
         Some (Inr v, \<lparr>calls = Suc n, waits = delaysUpTo rc n\<rparr>)"
proof -
  have b: "int n < 2 ^ 63" using assms(1) sint_lt [of "MaxRetries rc"] by simp
  have s: "sint (word_of_nat n :: 64 word) = int n" by (rule sint_of_nat64 [OF b])
  have "retryFrom ct what rc ctx fn 0 None newWorld =
         retryFrom ct what rc ctx fn (word_of_nat n)
           (if n = 0 then None else errOf (fn (n - 1)))
           \<lparr>calls = n, waits = delaysUpTo rc (n - 1)\<rparr>"
    by (rule retryFrom_reach) (use assms b in auto)
  also have "\<dots> = Some (Inr v, \<lparr>calls = Suc n, waits = delaysUpTo rc n\<rparr>)"
    using assms(1,3,4) s delaysUpTo_snoc [of rc n]
    by (subst retryFrom.simps)
       (auto simp add: backoffWait_def invoke_def Let_def word_sle_eq word_sless_alt)
  finally show ?thesis .
qed

lemma retryFrom_fatal:
  assumes "int n \<le> sint (MaxRetries rc)"
      and "\<forall>i<n. \<exists>e. fn i = Inl e \<and> isRetryable ct (Some e)"
      and "\<forall>i. 0 < i \<and> i \<le> n \<longrightarrow> ctx i = None"
      and "fn n = Inl e" "\<not> isRetryable ct (Some e)"
  shows "retryFrom ct what rc ctx fn 0 None newWorld =
         Some (Inl (attemptsError what rc (Some e)), \<lparr>calls = Suc n, waits = delaysUpTo rc n\<rparr>)"
proof -
  have b: "int n < 2 ^ 63" using assms(1) sint_lt [of "MaxRetries rc"] by simp
  have s: "sint (word_of_nat n :: 64 word) = int n" by (rule sint_of_nat64 [OF b])
  have "retryFrom ct what rc ctx fn 0 None newWorld =
         retryFrom ct what rc ctx fn (word_of_nat n)
           (if n = 0 then None else errOf (fn (n - 1)))
           \<lparr>calls = n, waits = delaysUpTo rc (n - 1)\<rparr>"
    by (rule retryFrom_reach) (use assms b in auto)
  also have "\<dots> = Some (Inl (attemptsError what rc (Some e)),
                        \<lparr>calls = Suc n, waits = delaysUpTo rc n\<rparr>)"
    using assms(1,3,4,5) s delaysUpTo_snoc [of rc n]
    by (subst retryFrom.simps)
       (auto simp add: backoffWait_def invoke_def Let_def word_sle_eq word_sless_alt)
  finally show ?thesis .
qed

lemma retryFrom_cancelled:
  assumes "0 < n" "int n \<le> sint (MaxRetries rc)"
      and "\<forall>i<n. \<exists>e. fn i = Inl e \<and> isRetryable ct (Some e)"
      and "\<forall>i<n. 0 < i \<longrightarrow> ctx i = None"
      and "ctx n = Some cerr"
  shows "retryFrom ct what rc ctx fn 0 None newWorld =
         Some (Inl cerr, \<lparr>calls = n, waits = delaysUpTo rc n\<rparr>)"
proof -
  have b: "int n < 2 ^ 63" using assms(2) sint_lt [of "MaxRetries rc"] by simp
  have s: "sint (word_of_nat n :: 64 word) = int n" by (rule sint_of_nat64 [OF b])
  have "retryFrom ct what rc ctx fn 0 None newWorld =
         retryFrom ct what rc ctx fn (word_of_nat n)
           (if n = 0 then None else errOf (fn (n - 1)))
           \<lparr>calls = n, waits = delaysUpTo rc (n - 1)\<rparr>"
    by (rule retryFrom_reach) (use assms b in auto)
  also have "\<dots> = Some (Inl cerr, \<lparr>calls = n, waits = delaysUpTo rc n\<rparr>)"
    using assms(1,2,5) s delaysUpTo_snoc [of rc n]
    by (subst retryFrom.simps)
       (auto simp add: backoffWait_def invoke_def Let_def word_sle_eq word_sless_alt)
  finally show ?thesis .
qed

lemma retryFrom_exhausted:
  assumes "int m = sint (MaxRetries rc)" and "sint (MaxRetries rc) + 1 < 2 ^ 63"
      and "\<forall>i\<le>m. \<exists>e. fn i = Inl e \<and> isRetryable ct (Some e)"
      and "\<forall>i. 0 < i \<and> i \<le> m \<longrightarrow> ctx i = None"
  shows "retryFrom ct what rc ctx fn 0 None newWorld =
         Some (Inl (attemptsError what rc (errOf (fn m))),
               \<lparr>calls = Suc m, waits = delaysUpTo rc m\<rparr>)"
proof -
  have b: "int (Suc m) < 2 ^ 63" using assms(1,2) by simp
  have s: "sint (word_of_nat (Suc m) :: 64 word) = int (Suc m)" by (rule sint_of_nat64 [OF b])
  have "retryFrom ct what rc ctx fn 0 None newWorld =
         retryFrom ct what rc ctx fn (word_of_nat (Suc m))
           (if Suc m = 0 then None else errOf (fn (Suc m - 1)))
           \<lparr>calls = Suc m, waits = delaysUpTo rc (Suc m - 1)\<rparr>"
    by (rule retryFrom_reach) (use assms b in \<open>auto simp: less_Suc_eq_le\<close>)
  also have "\<dots> = Some (Inl (attemptsError what rc (errOf (fn m))),
                        \<lparr>calls = Suc m, waits = delaysUpTo rc m\<rparr>)"
    using assms(1) s
    by (subst retryFrom.simps) (simp add: word_sle_eq)
  finally show ?thesis .
qed

text \<open>
  Unless \<^verbatim>\<open>MaxRetries\<close> is the largest \<^verbatim>\<open>int\<close>, the loop returns whatever the closure
  and the context do.
\<close>

lemma retryFrom_returns:
  assumes "0 \<le> sint a" and "sint (MaxRetries rc) + 1 < 2 ^ 63"
  shows "\<exists>r. retryFrom ct what rc ctx fn a le w = Some r"
  using assms(1)
proof (induction "nat (sint (MaxRetries rc) + 1 - sint a)" arbitrary: a le w)
  case 0
  then have "\<not> a \<le>s MaxRetries rc" by (simp add: word_sle_eq)
  then show ?case by (subst retryFrom.simps) simp
next
  case (Suc k)
  then have le_a: "a \<le>s MaxRetries rc" by (simp add: word_sle_eq)
  have s: "sint (a + 1) = sint a + 1"
    by (rule sint_succ) (use Suc.prems Suc.hyps(2) assms(2) in linarith)+
  have next_pass: "\<exists>r. retryFrom ct what rc ctx fn (a + 1) le' w' = Some r" for le' w'
    by (rule Suc.hyps(1)) (use s Suc.hyps(2) Suc.prems in simp_all)
  obtain c w1 where wt:
    "(if 0 <s a then backoffWait rc ctx a w else (None, w)) = (c, w1)"
    by (cases "if 0 <s a then backoffWait rc ctx a w else (None, w)")
  show ?case
  proof (cases c)
    case (Some cerr)
    with le_a wt show ?thesis by (subst retryFrom.simps) simp
  next
    case None
    obtain r w2 where iv: "invoke fn w1 = (r, w2)" by (cases "invoke fn w1")
    show ?thesis
    proof (cases r)
      case (Inr v)
      with le_a wt None iv show ?thesis by (subst retryFrom.simps) simp
    next
      case (Inl err)
      with le_a wt None iv next_pass [of "Some err" w2] show ?thesis
        by (subst retryFrom.simps) auto
    qed
  qed
qed

lemma withRetry_returns:
  assumes "sint (MaxRetries (retryConfig p)) + 1 < 2 ^ 63"
  shows "\<exists>r. withRetry ct p ctx fn = Some r" and "\<exists>r. withRetryStructured ct p ctx fns = Some r"
  unfolding withRetry_def withRetryStructured_def
  by (rule retryFrom_returns, simp, rule assms)+

section \<open>The backoff delay\<close>

text \<open>
  With the retry configuration of \<^verbatim>\<open>NewGoogleAIProvider\<close> the waits before the
  attempts 1, 2 and 3 last one, two and four seconds.
\<close>

lemma upt_1_3: "[1..<Suc 3] = [1, 2, 3]"
  by (simp add: upt_conv_Cons)

lemma default_delays:
  "delaysUpTo (retryConfig (NewGoogleAIProvider eh)) 3 = [Second, 2 * Second, 4 * Second]"
  unfolding delaysUpTo_def upt_1_3
  by (simp add: NewGoogleAIProvider_def backoffDelay_def smin_def Second_def word_sle_eq)


section \<open>Classification of errors and descriptions of runs\<close>

lemma transientFailures_iff:
  "transientFailures ct fn n \<longleftrightarrow> (\<forall>i<n. \<exists>e. fn i = Inl e \<and> isRetryable ct (Some e))"
proof -
  have "(case r of Inl e \<Rightarrow> isRetryable ct (Some e) | Inr x \<Rightarrow> False) \<longleftrightarrow>
        (\<exists>e. r = Inl e \<and> isRetryable ct (Some e))" for r :: "goerror + 'a"
    by (cases r) simp_all
  then have "transientFailures ct fn n \<longleftrightarrow>
             (\<forall>i\<in>{0..<n}. \<exists>e. fn i = Inl e \<and> isRetryable ct (Some e))"
    by (simp add: transientFailures_def list_all_iff)
  also have "\<dots> \<longleftrightarrow> (\<forall>i<n. \<exists>e. fn i = Inl e \<and> isRetryable ct (Some e))"
    by (simp add: Ball_def)
  finally show ?thesis .
qed

lemma timerFirst_iff: "timerFirst ctx n \<longleftrightarrow> (\<forall>i. 0 < i \<and> i \<le> n \<longrightarrow> ctx i = None)"
proof -
  have "i \<in> set [1..<Suc n] \<longleftrightarrow> 0 < i \<and> i \<le> n" for i by auto
  then show ?thesis
    by (simp only: timerFirst_def list_all_iff) blast
qed

lemma transientFailures_mono:
  "transientFailures ct fn n \<Longrightarrow> k \<le> n \<Longrightarrow> transientFailures ct fn k"
  by (simp add: transientFailures_iff)

lemma timerFirst_mono: "timerFirst ctx n \<Longrightarrow> k \<le> n \<Longrightarrow> timerFirst ctx k"
  by (simp add: timerFirst_iff)

text \<open>
  On ASCII text the two branches of \<^verbatim>\<open>strings.ToLower\<close> agree, and the case table is
  not consulted.
\<close>

lemma Map_ascii: "isASCII s \<Longrightarrow> Map (unicodeToLower ct) s = map toLowerChar s"
proof (induction s)
  case Nil
  then show ?case by (simp add: Map_def runesOf_def)
next
  case (Cons c cs)
  then have c: "(of_char c :: nat) < 128" and cs: "isASCII cs" by (simp_all add: isASCII_def)
  have "Map (unicodeToLower ct) (c # cs) =
        char_of (unicodeToLower ct (of_char c)) # Map (unicodeToLower ct) cs"
    using c by (simp add: Map_def runesOf_def EncodeRune_def unicodeToLower_def)
  moreover have "char_of (unicodeToLower ct (of_char c)) = toLowerChar c"
    using c by (simp add: unicodeToLower_def toLowerChar_def Let_def)
  ultimately show ?case using Cons.IH [OF cs] by simp
qed

lemma ToLower_ascii: "isASCII s \<Longrightarrow> ToLower ct s = map toLowerChar s"
  by (simp add: ToLower_def)

lemma ToLower_Map: "ToLower ct s = Map (unicodeToLower ct) s"
  by (simp add: ToLower_def Map_ascii)

lemma rateLimited_lower: "map toLowerChar (Error rateLimited) = ''429 too many requests''"
  by code_simp

lemma rateLimited_retryable: "isRetryable ct (Some rateLimited)"
proof -
  have "isASCII (Error rateLimited)" by (simp add: rateLimited_def isASCII_def)
  then have "ToLower ct (Error rateLimited) = ''429 too many requests''"
    by (simp add: ToLower_ascii rateLimited_lower)
  then show ?thesis by (simp add: isRetryable_def retryablePatterns_def)
qed

lemma invalidOutput_lower: "map toLowerChar (Error invalidOutput) = Error invalidOutput"
  by code_simp

lemma invalidOutput_fatal: "\<not> isRetryable ct (Some invalidOutput)"
proof -
  have "isASCII (Error invalidOutput)" by (simp add: invalidOutput_def isASCII_def)
  then have "ToLower ct (Error invalidOutput) = Error invalidOutput"
    by (simp add: ToLower_ascii invalidOutput_lower)
  then show ?thesis by (simp add: isRetryable_def retryablePatterns_def invalidOutput_def)
qed

text \<open>
  With a table that lowers the dotted capital I to \<open>i\<close>, as the table of Go does, the
  message \<^verbatim>\<open>"T\u0130MEOUT"\<close> is lowered to \<^verbatim>\<open>"timeout"\<close> and the error is transient.
\<close>

lemma timeout_bytes: "map char_of [116, 105, 109, 101, 111, 117, 116 :: nat] = ''timeout''"
  by code_simp

lemma dottedTimeout_retryable:
  assumes "ct 0x130 = 0x69"
  shows "isRetryable ct (Some dottedTimeout)"
proof -
  have "\<not> isASCII (Error dottedTimeout)" by (simp add: dottedTimeout_def isASCII_def)
  moreover have "Map (unicodeToLower ct) (Error dottedTimeout) = ''timeout''"
    using assms timeout_bytes
    by (simp add: Map_def runesOf_def dottedTimeout_def inRange_def unicodeToLower_def
        EncodeRune_def)
  ultimately have "ToLower ct (Error dottedTimeout) = ''timeout''" by (simp add: ToLower_def)
  then show ?thesis by (simp add: isRetryable_def retryablePatterns_def)
qed

lemma sampleTable_dotted_I: "sampleTable 0x130 = 0x69"
  by (simp add: sampleTable_def)

lemma transientFailures_dottedThenInvalid:
  "transientFailures sampleTable (dottedThenInvalid n) n"
  by (simp add: transientFailures_iff dottedThenInvalid_def
      dottedTimeout_retryable [where ct = sampleTable, OF sampleTable_dotted_I])

lemma transientFailures_failThenSucceed: "transientFailures ct (failThenSucceed n) n"
  by (simp add: transientFailures_iff failThenSucceed_def rateLimited_retryable)

lemma timerFirst_neverDone: "timerFirst neverDone n"
  by (simp add: timerFirst_iff neverDone_def)










lemma transientFailures_failThenInvalid: "transientFailures ct (failThenInvalid n) n"
  by (simp add: transientFailures_iff failThenInvalid_def rateLimited_retryable)

lemma transientFailures_failThenRespond: "transientFailures ct (failThenRespond n) n"
  by (simp add: transientFailures_iff failThenRespond_def rateLimited_retryable)

lemma timerFirst_cancelledAfter: "k < n \<Longrightarrow> timerFirst (cancelledAfter n) k"
  by (simp add: timerFirst_iff cancelledAfter_def)

lemma upt_1_2: "[1..<Suc 2] = [1, 2]"
  by (simp add: upt_conv_Cons)

lemma default_delays2:
  "delaysUpTo (retryConfig (NewGoogleAIProvider eh)) 2 = [Second, 2 * Second]"
  unfolding delaysUpTo_def upt_1_2
  by (simp add: NewGoogleAIProvider_def backoffDelay_def smin_def Second_def word_sle_eq)

lemma default_MaxRetries: "sint (MaxRetries (retryConfig (NewGoogleAIProvider eh))) = 3"
  by (simp add: NewGoogleAIProvider_def)

lemma showInt_4: "showInt 4 = ''4''"
  by code_simp

lemma attemptsError_exhausted:
  assumes "int m = sint (MaxRetries rc)" and "int m + 1 < 2 ^ 63"
  shows "attemptsError what rc (Some e) =
         WrapError (what @ showInt (int (Suc m)) @ '' attempts: '' @ Error e) e"
proof -
  have "sint (MaxRetries rc + 1) = sint (MaxRetries rc) + 1"
    by (rule sint_succ) (use assms in simp_all)
  then show ?thesis using assms(1) by (simp add: attemptsError_def add.commute)
qed

section \<open>The delay before each retry\<close>





section \<open>Retries until success or exhaustion\<close>

text \<open>
  C1, as the claim states it, for the provider that \<^verbatim>\<open>NewGoogleAIProvider\<close> builds
  (three retries): a closure that fails transiently \<open>N = 3\<close> times and then succeeds
  has \<open>N \<ge> maxRetries\<close>, and the call returns the success of the fourth attempt, not
  an aggregated failure.
\<close>

theorem retry_succeeds_on_last_attempt:
  "3 \<ge> sint (MaxRetries (retryConfig (NewGoogleAIProvider plainHandler))) \<and>
   transientFailures sampleTable (failThenSucceed 3) 3 \<and>
   withRetry sampleTable (NewGoogleAIProvider plainHandler) neverDone (failThenSucceed 3) =
     Some (Inr ''ok'', \<lparr>calls = 4, waits = [Second, 2 * Second, 4 * Second]\<rparr>)"
proof -
  have "retryFrom sampleTable ''google AI request failed after ''
          (retryConfig (NewGoogleAIProvider plainHandler)) neverDone (failThenSucceed 3) 0 None
          newWorld =
        Some (Inr ''ok'',
              \<lparr>calls = Suc 3, waits = delaysUpTo (retryConfig (NewGoogleAIProvider plainHandler)) 3\<rparr>)"
  proof (rule retryFrom_success)
    show "int 3 \<le> sint (MaxRetries (retryConfig (NewGoogleAIProvider plainHandler)))"
      by (simp add: default_MaxRetries)
    show "\<forall>i<3. \<exists>e. failThenSucceed 3 i = Inl e \<and> isRetryable sampleTable (Some e)"
      using transientFailures_failThenSucceed [of sampleTable 3] by (simp only: transientFailures_iff)
    show "\<forall>i. 0 < i \<and> i \<le> 3 \<longrightarrow> neverDone i = None"
      by (simp add: neverDone_def)
    show "failThenSucceed 3 3 = Inr ''ok''"
      by (simp add: failThenSucceed_def)
  qed
  then show ?thesis
    using transientFailures_failThenSucceed [of sampleTable 3]
    by (simp add: withRetry_def default_delays default_MaxRetries)
qed

text \<open>
  C1, amended: if the closure fails transiently \<open>N\<close> times and then succeeds, and no
  wait is cut short by the context, then \<^verbatim>\<open>withRetry\<close> returns the success after
  exactly \<open>N + 1\<close> attempts when \<open>N \<le> maxRetries\<close>; when \<open>N > maxRetries\<close> (and
  \<open>maxRetries\<close> is not the largest \<^verbatim>\<open>int\<close>) it returns the aggregated failure after
  exactly \<open>maxRetries + 1\<close> attempts. Here \<open>m\<close> is \<open>maxRetries\<close>.
\<close>

theorem retry_until_success:
  assumes "int m = sint (MaxRetries (retryConfig p))"
      and "transientFailures ct fn n" and "fn n = Inr v"
      and "timerFirst ctx n"
  shows "(n \<le> m \<longrightarrow>
            withRetry ct p ctx fn =
              Some (Inr v, \<lparr>calls = Suc n, waits = delaysUpTo (retryConfig p) n\<rparr>)) \<and>
         (m < n \<and> int m + 1 < 2 ^ 63 \<longrightarrow>
            withRetry ct p ctx fn =
              Some (Inl (attemptsError ''google AI request failed after '' (retryConfig p)
                           (errOf (fn m))),
                    \<lparr>calls = Suc m, waits = delaysUpTo (retryConfig p) m\<rparr>))"
proof (intro conjI impI)
  assume "n \<le> m"
  then have "int n \<le> sint (MaxRetries (retryConfig p))" using assms(1) by simp
  then show "withRetry ct p ctx fn =
              Some (Inr v, \<lparr>calls = Suc n, waits = delaysUpTo (retryConfig p) n\<rparr>)"
    unfolding withRetry_def
    using assms(2,3,4) by (intro retryFrom_success) (simp_all add: transientFailures_iff timerFirst_iff)
next
  assume a: "m < n \<and> int m + 1 < 2 ^ 63"
  then have "transientFailures ct fn (Suc m)" "timerFirst ctx m"
    using assms(2,4) by (auto intro: transientFailures_mono timerFirst_mono)
  then show "withRetry ct p ctx fn =
              Some (Inl (attemptsError ''google AI request failed after '' (retryConfig p)
                           (errOf (fn m))),
                    \<lparr>calls = Suc m, waits = delaysUpTo (retryConfig p) m\<rparr>)"
    unfolding withRetry_def
    using assms(1) a
    by (intro retryFrom_exhausted) (simp_all add: transientFailures_iff timerFirst_iff less_Suc_eq_le)
qed

theorem retry_until_success_witness:
  "int 3 = sint (MaxRetries (retryConfig (NewGoogleAIProvider plainHandler))) \<and>
   transientFailures sampleTable (failThenSucceed 2) 2 \<and> failThenSucceed 2 2 = Inr ''ok'' \<and>
   timerFirst neverDone 2 \<and> (2 :: nat) \<le> 3 \<and>
   withRetry sampleTable (NewGoogleAIProvider plainHandler) neverDone (failThenSucceed 2) =
     Some (Inr ''ok'', \<lparr>calls = 3, waits = [Second, 2 * Second]\<rparr>) \<and>
   transientFailures sampleTable (failThenSucceed 5) 5 \<and> failThenSucceed 5 5 = Inr ''ok'' \<and>
   timerFirst neverDone 5 \<and> (3 :: nat) < 5 \<and> int 3 + 1 < 2 ^ 63 \<and>
   withRetry sampleTable (NewGoogleAIProvider plainHandler) neverDone (failThenSucceed 5) =
     Some (Inl (WrapError
                  ''google AI request failed after 4 attempts: 429 Too Many Requests''
                  rateLimited),
           \<lparr>calls = 4, waits = [Second, 2 * Second, 4 * Second]\<rparr>)"
proof -
  let ?p = "NewGoogleAIProvider plainHandler"
  have m: "int 3 = sint (MaxRetries (retryConfig ?p))" by (simp add: default_MaxRetries)
  have f2: "failThenSucceed 2 2 = Inr ''ok''" and f5: "failThenSucceed 5 5 = Inr ''ok''"
    by (simp_all add: failThenSucceed_def)
  have e: "attemptsError ''google AI request failed after '' (retryConfig ?p)
             (errOf (failThenSucceed 5 3)) =
           WrapError
             ''google AI request failed after 4 attempts: 429 Too Many Requests''
             rateLimited"
    by (simp add: attemptsError_def errOf_def failThenSucceed_def NewGoogleAIProvider_def
        showInt_4 rateLimited_def)
  from retry_until_success [OF m transientFailures_failThenSucceed f2 timerFirst_neverDone]
       retry_until_success [OF m transientFailures_failThenSucceed f5 timerFirst_neverDone]
  show ?thesis
    using m f2 f5 e
    by (simp add: transientFailures_failThenSucceed timerFirst_neverDone default_delays
        default_delays2)
qed

section \<open>Errors that are not retried\<close>



section \<open>Exhaustion\<close>

text \<open>
  C6: when every one of the \<open>maxRetries + 1\<close> attempts fails transiently (and
  \<open>maxRetries\<close>, here \<open>m\<close>, is not the largest \<^verbatim>\<open>int\<close>), \<^verbatim>\<open>withRetry\<close> and
  \<^verbatim>\<open>withRetryStructured\<close> return one error whose message reports \<open>m + 1\<close>
  attempts, the number of attempts made, and which wraps the error of the last attempt.
\<close>

theorem exhaustion_wraps_last_error:
  assumes "int m = sint (MaxRetries (retryConfig p))" and "int m + 1 < 2 ^ 63"
      and "timerFirst ctx m"
  shows "(transientFailures ct fn (Suc m) \<and> fn m = Inl e \<longrightarrow>
            withRetry ct p ctx fn =
              Some (Inl (WrapError (''google AI request failed after '' @ showInt (int (Suc m)) @
                                    '' attempts: '' @ Error e) e),
                    \<lparr>calls = Suc m, waits = delaysUpTo (retryConfig p) m\<rparr>)) \<and>
         (transientFailures ct fns (Suc m) \<and> fns m = Inl e \<longrightarrow>
            withRetryStructured ct p ctx fns =
              Some (Inl (WrapError (''google AI structured request failed after '' @
                                    showInt (int (Suc m)) @ '' attempts: '' @ Error e) e),
                    \<lparr>calls = Suc m, waits = delaysUpTo (retryConfig p) m\<rparr>))"
proof (intro conjI impI)
  assume a: "transientFailures ct fn (Suc m) \<and> fn m = Inl e"
  have "retryFrom ct ''google AI request failed after '' (retryConfig p) ctx fn 0 None newWorld =
        Some (Inl (attemptsError ''google AI request failed after '' (retryConfig p)
                     (errOf (fn m))),
              \<lparr>calls = Suc m, waits = delaysUpTo (retryConfig p) m\<rparr>)"
    using assms a
    by (intro retryFrom_exhausted)
       (simp_all add: transientFailures_iff timerFirst_iff less_Suc_eq_le)
  then show "withRetry ct p ctx fn =
              Some (Inl (WrapError (''google AI request failed after '' @ showInt (int (Suc m)) @
                                    '' attempts: '' @ Error e) e),
                    \<lparr>calls = Suc m, waits = delaysUpTo (retryConfig p) m\<rparr>)"
    using a attemptsError_exhausted [OF assms(1,2)]
    by (simp add: withRetry_def errOf_def)
next
  assume a: "transientFailures ct fns (Suc m) \<and> fns m = Inl e"
  have "retryFrom ct ''google AI structured request failed after '' (retryConfig p) ctx fns 0 None
          newWorld =
        Some (Inl (attemptsError ''google AI structured request failed after '' (retryConfig p)
                     (errOf (fns m))),
              \<lparr>calls = Suc m, waits = delaysUpTo (retryConfig p) m\<rparr>)"
    using assms a
    by (intro retryFrom_exhausted)
       (simp_all add: transientFailures_iff timerFirst_iff less_Suc_eq_le)
  then show "withRetryStructured ct p ctx fns =
              Some (Inl (WrapError (''google AI structured request failed after '' @
                                    showInt (int (Suc m)) @ '' attempts: '' @ Error e) e),
                    \<lparr>calls = Suc m, waits = delaysUpTo (retryConfig p) m\<rparr>)"
    using a attemptsError_exhausted [OF assms(1,2)]
    by (simp add: withRetryStructured_def errOf_def)
qed

theorem exhaustion_wraps_last_error_witness:
  "int 3 = sint (MaxRetries (retryConfig (NewGoogleAIProvider plainHandler))) \<and>
   int 3 + 1 < 2 ^ 63 \<and> timerFirst neverDone 3 \<and>
   transientFailures sampleTable (failThenSucceed 5) (Suc 3) \<and> failThenSucceed 5 3 = Inl rateLimited \<and>
   withRetry sampleTable (NewGoogleAIProvider plainHandler) neverDone (failThenSucceed 5) =
     Some (Inl (WrapError (''google AI request failed after 4 attempts: '' @ Error rateLimited)
                  rateLimited),
           \<lparr>calls = 4, waits = [Second, 2 * Second, 4 * Second]\<rparr>) \<and>
   transientFailures sampleTable (failThenRespond 5) (Suc 3) \<and> failThenRespond 5 3 = Inl rateLimited \<and>
   withRetryStructured sampleTable (NewGoogleAIProvider plainHandler) neverDone (failThenRespond 5) =
     Some (Inl (WrapError
                  (''google AI structured request failed after 4 attempts: '' @
                   Error rateLimited)
                  rateLimited),
           \<lparr>calls = 4, waits = [Second, 2 * Second, 4 * Second]\<rparr>)"
proof -
  let ?p = "NewGoogleAIProvider plainHandler"
  have m: "int 3 = sint (MaxRetries (retryConfig ?p))" by (simp add: default_MaxRetries)
  have b: "int 3 + 1 < 2 ^ 63" by simp
  have t: "transientFailures sampleTable (failThenSucceed 5) (Suc 3)"
    by (rule transientFailures_mono [OF transientFailures_failThenSucceed]) simp
  have ts: "transientFailures sampleTable (failThenRespond 5) (Suc 3)"
    by (rule transientFailures_mono [OF transientFailures_failThenRespond]) simp
  have f: "failThenSucceed 5 3 = Inl rateLimited" by (simp add: failThenSucceed_def)
  have fs: "failThenRespond 5 3 = Inl rateLimited" by (simp add: failThenRespond_def)
  have s: "showInt (int (Suc 3)) = ''4''" using showInt_4 by simp
  note inst = exhaustion_wraps_last_error [OF m b timerFirst_neverDone,
      where ct = sampleTable and fn = "failThenSucceed 5" and e = rateLimited
        and fns = "failThenRespond 5"]
  have r1: "withRetry sampleTable ?p neverDone (failThenSucceed 5) =
     Some (Inl (WrapError (''google AI request failed after 4 attempts: '' @ Error rateLimited)
                  rateLimited),
           \<lparr>calls = 4, waits = [Second, 2 * Second, 4 * Second]\<rparr>)"
    using inst [THEN conjunct1, rule_format, OF conjI, OF t f]
    by (simp only: s default_delays) simp
  have r2: "withRetryStructured sampleTable ?p neverDone (failThenRespond 5) =
     Some (Inl (WrapError
                  (''google AI structured request failed after 4 attempts: '' @
                   Error rateLimited)
                  rateLimited),
           \<lparr>calls = 4, waits = [Second, 2 * Second, 4 * Second]\<rparr>)"
    using inst [THEN conjunct2, rule_format, OF conjI, OF ts fs]
    by (simp only: s default_delays) simp
  from m b t ts f fs r1 r2 timerFirst_neverDone [of 3] show ?thesis by blast
qed

section \<open>Cancellation during a backoff wait\<close>

text \<open>
  C7: if the context is done during the backoff wait that follows \<open>n\<close> failed
  attempts, \<^verbatim>\<open>withRetry\<close> and \<^verbatim>\<open>withRetryStructured\<close> return the error of the
  context, and the closure has been invoked \<open>n\<close> times: no attempt follows the
  cancellation.
\<close>

theorem cancellation_during_backoff:
  assumes "0 < n" and "int n \<le> sint (MaxRetries (retryConfig p))"
      and "timerFirst ctx (n - 1)" and "ctx n = Some cerr"
  shows "(transientFailures ct fn n \<longrightarrow>
            withRetry ct p ctx fn =
              Some (Inl cerr, \<lparr>calls = n, waits = delaysUpTo (retryConfig p) n\<rparr>)) \<and>
         (transientFailures ct fns n \<longrightarrow>
            withRetryStructured ct p ctx fns =
              Some (Inl cerr, \<lparr>calls = n, waits = delaysUpTo (retryConfig p) n\<rparr>))"
proof -
  have c: "\<forall>i<n. 0 < i \<longrightarrow> ctx i = None"
    using assms(3) by (auto simp: timerFirst_iff)
  show ?thesis
    unfolding withRetry_def withRetryStructured_def
    using assms(1,2,4) c
    by (intro conjI impI retryFrom_cancelled) (simp_all add: transientFailures_iff)
qed

theorem cancellation_during_backoff_witness:
  "(0 :: nat) < 2 \<and> int 2 \<le> sint (MaxRetries (retryConfig (NewGoogleAIProvider plainHandler))) \<and>
   timerFirst (cancelledAfter 2) (2 - 1) \<and>
   cancelledAfter 2 2 = Some (ErrorString ''context canceled'') \<and>
   transientFailures sampleTable (failThenSucceed 5) 2 \<and>
   withRetry sampleTable (NewGoogleAIProvider plainHandler) (cancelledAfter 2) (failThenSucceed 5) =
     Some (Inl (ErrorString ''context canceled''),
           \<lparr>calls = 2, waits = [Second, 2 * Second]\<rparr>) \<and>
   transientFailures sampleTable (failThenRespond 5) 2 \<and>
   withRetryStructured sampleTable (NewGoogleAIProvider plainHandler) (cancelledAfter 2)
       (failThenRespond 5) =
     Some (Inl (ErrorString ''context canceled''),
           \<lparr>calls = 2, waits = [Second, 2 * Second]\<rparr>)"
proof -
  let ?p = "NewGoogleAIProvider plainHandler"
  have p: "(0 :: nat) < 2" by simp
  have m: "int 2 \<le> sint (MaxRetries (retryConfig ?p))" by (simp add: default_MaxRetries)
  have w: "timerFirst (cancelledAfter 2) (2 - 1)" by (rule timerFirst_cancelledAfter) simp
  have c: "cancelledAfter 2 2 = Some (ErrorString ''context canceled'')"
    by (simp add: cancelledAfter_def)
  have t: "transientFailures sampleTable (failThenSucceed 5) 2"
    by (rule transientFailures_mono [OF transientFailures_failThenSucceed]) simp
  have ts: "transientFailures sampleTable (failThenRespond 5) 2"
    by (rule transientFailures_mono [OF transientFailures_failThenRespond]) simp
  note inst = cancellation_during_backoff [OF p m w c,
      where ct = sampleTable and fn = "failThenSucceed 5" and fns = "failThenRespond 5"]
  have r1: "withRetry sampleTable ?p (cancelledAfter 2) (failThenSucceed 5) =
     Some (Inl (ErrorString ''context canceled''),
           \<lparr>calls = 2, waits = [Second, 2 * Second]\<rparr>)"
    using inst [THEN conjunct1, rule_format, OF t] by (simp only: default_delays2)
  have r2: "withRetryStructured sampleTable ?p (cancelledAfter 2) (failThenRespond 5) =
     Some (Inl (ErrorString ''context canceled''),
           \<lparr>calls = 2, waits = [Second, 2 * Second]\<rparr>)"
    using inst [THEN conjunct2, rule_format, OF ts] by (simp only: default_delays2)
  from p m w c t ts r1 r2 show ?thesis by blast
qed

section \<open>Structured calls\<close>

lemma retryFrom_first_success:
  assumes "0 \<le> sint (MaxRetries rc)" and "fn 0 = Inr v"
  shows "retryFrom ct what rc ctx fn 0 None newWorld = Some (Inr v, \<lparr>calls = 1, waits = []\<rparr>)"
proof -
  have "retryFrom ct what rc ctx fn 0 None newWorld =
        Some (Inr v, \<lparr>calls = Suc 0, waits = delaysUpTo rc 0\<rparr>)"
    using assms by (intro retryFrom_success) simp_all
  then show ?thesis by (simp add: delaysUpTo_def)
qed

lemma retryFrom_first_fatal:
  assumes "0 \<le> sint (MaxRetries rc)" and "fn 0 = Inl e" and "\<not> isRetryable ct (Some e)"
  shows "retryFrom ct what rc ctx fn 0 None newWorld =
         Some (Inl (attemptsError what rc (Some e)), \<lparr>calls = 1, waits = []\<rparr>)"
proof -
  have "retryFrom ct what rc ctx fn 0 None newWorld =
        Some (Inl (attemptsError what rc (Some e)), \<lparr>calls = Suc 0, waits = delaysUpTo rc 0\<rparr>)"
    using assms by (intro retryFrom_fatal) simp_all
  then show ?thesis by (simp add: delaysUpTo_def)
qed

lemma readyProvider_facts:
  "initialized readyProvider" "sint (MaxRetries (retryConfig readyProvider)) = 3"
  "IsAvailable readyProvider"
  by (simp_all add: readyProvider_def NewGoogleAIProvider_def IsAvailable_def)

lemma readyProvider_retryConfig:
  "retryConfig readyProvider = retryConfig (NewGoogleAIProvider plainHandler)"
  by (simp add: readyProvider_def)

lemma readyProvider_delays:
  "delaysUpTo (retryConfig readyProvider) 2 = [Second, 2 * Second]"
  "delaysUpTo (retryConfig readyProvider) 3 = [Second, 2 * Second, 4 * Second]"
  using default_delays2 [of plainHandler] default_delays [of plainHandler]
  by (simp_all add: readyProvider_retryConfig)

lemma readyProvider_attemptsError:
  "attemptsError ''google AI structured request failed after '' (retryConfig readyProvider)
     (Some e) =
   WrapError (''google AI structured request failed after 4 attempts: '' @ Error e) e"
  by (simp add: attemptsError_def readyProvider_retryConfig NewGoogleAIProvider_def showInt_4)

lemma transientFailures_stubEnv:
  "transientFailures ct (\<lambda>i. generate (stubEnv f) i r) n \<longleftrightarrow> transientFailures ct f n"
  by (simp add: stubEnv_def)

text \<open>
  C4, as the claim states it, on a ready provider whose model library reports an output
  that does not match the schema: the error matches no retryable pattern, so the one
  attempt is the only one, and the failure is returned without the retry that the claim
  requires.
\<close>

theorem structured_validation_error_not_retried:
  "GenerateWithStructuredOutput sampleTable readyProvider (stubEnv alwaysInvalid) neverDone
       ''List the entities.'' ''EntityList'' =
     Some (Inl (WrapError
                  (''google AI structured request failed after 4 attempts: '' @
                   Error invalidOutput)
                  invalidOutput),
           readyProvider, \<lparr>calls = 1, waits = []\<rparr>)"
proof -
  have "retryFrom sampleTable ''google AI structured request failed after '' (retryConfig readyProvider)
          neverDone
          (\<lambda>i. generate (stubEnv alwaysInvalid) i
             \<lparr>reqGenkit = genkit readyProvider, reqModel = GetModel readyProvider,
              reqPrompt = ''List the entities.'', reqOutputType = Some ''EntityList''\<rparr>)
          0 None newWorld =
        Some (Inl (attemptsError ''google AI structured request failed after ''
                     (retryConfig readyProvider) (Some invalidOutput)),
              \<lparr>calls = 1, waits = []\<rparr>)"
    by (rule retryFrom_first_fatal)
       (simp_all add: readyProvider_facts stubEnv_def alwaysInvalid_def invalidOutput_fatal)
  moreover have "attemptsError ''google AI structured request failed after ''
                   (retryConfig readyProvider) (Some invalidOutput) =
                 WrapError (''google AI structured request failed after 4 attempts: '' @
                            Error invalidOutput) invalidOutput"
    by (simp add: attemptsError_def readyProvider_retryConfig NewGoogleAIProvider_def
        showInt_4)
  ultimately show ?thesis
    by (simp add: GenerateWithStructuredOutput_def withRetryStructured_def readyProvider_facts)
qed

text \<open>
  C4, amended: a structured call has no validation retry of its own and sends the same
  request, with the caller's prompt and output type, at every attempt. On an initialized
  provider, when the first \<open>n \<le> maxRetries\<close> answers to that request are transient
  errors and no wait is cut short by the context, the call makes the attempt \<open>n + 1\<close>
  after the backoff waits of the attempts \<open>1\<close> to \<open>n\<close>, and then: a response is
  returned as it is; an error that is not transient, such as a validation failure
  reported by the model library, ends the call with the failure that wraps it; and a
  transient error of the last attempt, \<open>n = maxRetries\<close>, ends the call with the failure
  that wraps it. In each case exactly \<open>n + 1\<close> requests were made. A context that is done
  during the wait \<open>k \<le> n\<close> ends the call with the error of the context after \<open>k\<close>
  requests.
\<close>

theorem structured_call_retry_policy:
  assumes "initialized p"
      and "int n \<le> sint (MaxRetries (retryConfig p))"
      and "r = \<lparr>reqGenkit = genkit p, reqModel = GetModel p, reqPrompt = prompt,
                reqOutputType = Some outputType\<rparr>"
      and "transientFailures ct (\<lambda>i. generate env i r) n"
      and "timerFirst ctx n"
  shows "(\<forall>resp. generate env n r = Inr resp \<longrightarrow>
            GenerateWithStructuredOutput ct p env ctx prompt outputType =
              Some (Inr resp, p, \<lparr>calls = Suc n, waits = delaysUpTo (retryConfig p) n\<rparr>)) \<and>
         (\<forall>e. generate env n r = Inl e \<and> \<not> isRetryable ct (Some e) \<longrightarrow>
            GenerateWithStructuredOutput ct p env ctx prompt outputType =
              Some (Inl (attemptsError ''google AI structured request failed after ''
                           (retryConfig p) (Some e)),
                    p, \<lparr>calls = Suc n, waits = delaysUpTo (retryConfig p) n\<rparr>)) \<and>
         (\<forall>e. generate env n r = Inl e \<and> isRetryable ct (Some e) \<and>
              int n = sint (MaxRetries (retryConfig p)) \<and>
              sint (MaxRetries (retryConfig p)) + 1 < 2 ^ 63 \<longrightarrow>
            GenerateWithStructuredOutput ct p env ctx prompt outputType =
              Some (Inl (attemptsError ''google AI structured request failed after ''
                           (retryConfig p) (Some e)),
                    p, \<lparr>calls = Suc n, waits = delaysUpTo (retryConfig p) n\<rparr>)) \<and>
         (\<forall>ctx' k cerr. 0 < k \<and> k \<le> n \<and> timerFirst ctx' (k - 1) \<and> ctx' k = Some cerr \<longrightarrow>
            GenerateWithStructuredOutput ct p env ctx' prompt outputType =
              Some (Inl cerr, p, \<lparr>calls = k, waits = delaysUpTo (retryConfig p) k\<rparr>))"
proof (intro conjI allI impI)
  let ?what = "''google AI structured request failed after ''"
  let ?fn = "\<lambda>i. generate env i r"
  have g: "\<And>c. GenerateWithStructuredOutput ct p env c prompt outputType =
             map_option (\<lambda>(response, w). (response, p, w))
               (retryFrom ct ?what (retryConfig p) c ?fn 0 None newWorld)"
    using assms(1,3) by (simp add: GenerateWithStructuredOutput_def withRetryStructured_def)
  have t: "\<forall>i<n. \<exists>e. ?fn i = Inl e \<and> isRetryable ct (Some e)"
    using assms(4) by (simp add: transientFailures_iff)
  have c: "\<forall>i. 0 < i \<and> i \<le> n \<longrightarrow> ctx i = None"
    using assms(5) by (simp add: timerFirst_iff)
  {
    fix resp
    assume "generate env n r = Inr resp"
    then have "retryFrom ct ?what (retryConfig p) ctx ?fn 0 None newWorld =
               Some (Inr resp, \<lparr>calls = Suc n, waits = delaysUpTo (retryConfig p) n\<rparr>)"
      by (intro retryFrom_success assms(2) t c)
    then show "GenerateWithStructuredOutput ct p env ctx prompt outputType =
              Some (Inr resp, p, \<lparr>calls = Suc n, waits = delaysUpTo (retryConfig p) n\<rparr>)"
      by (simp add: g)
  next
    fix e
    assume "generate env n r = Inl e \<and> \<not> isRetryable ct (Some e)"
    then have "retryFrom ct ?what (retryConfig p) ctx ?fn 0 None newWorld =
               Some (Inl (attemptsError ?what (retryConfig p) (Some e)),
                     \<lparr>calls = Suc n, waits = delaysUpTo (retryConfig p) n\<rparr>)"
      by (intro retryFrom_fatal assms(2) t c) simp_all
    then show "GenerateWithStructuredOutput ct p env ctx prompt outputType =
              Some (Inl (attemptsError ?what (retryConfig p) (Some e)),
                    p, \<lparr>calls = Suc n, waits = delaysUpTo (retryConfig p) n\<rparr>)"
      by (simp add: g)
  next
    fix e
    assume a: "generate env n r = Inl e \<and> isRetryable ct (Some e) \<and>
              int n = sint (MaxRetries (retryConfig p)) \<and>
              sint (MaxRetries (retryConfig p)) + 1 < 2 ^ 63"
    have "\<forall>i\<le>n. \<exists>e. ?fn i = Inl e \<and> isRetryable ct (Some e)"
      using t a by (auto simp: le_less)
    then have "retryFrom ct ?what (retryConfig p) ctx ?fn 0 None newWorld =
               Some (Inl (attemptsError ?what (retryConfig p) (errOf (?fn n))),
                     \<lparr>calls = Suc n, waits = delaysUpTo (retryConfig p) n\<rparr>)"
      using a c by (intro retryFrom_exhausted) simp_all
    then show "GenerateWithStructuredOutput ct p env ctx prompt outputType =
              Some (Inl (attemptsError ?what (retryConfig p) (Some e)),
                    p, \<lparr>calls = Suc n, waits = delaysUpTo (retryConfig p) n\<rparr>)"
      using a by (simp add: g errOf_def)
  next
    fix ctx' k cerr
    assume a: "0 < k \<and> k \<le> n \<and> timerFirst ctx' (k - 1) \<and> ctx' k = Some cerr"
    have "retryFrom ct ?what (retryConfig p) ctx' ?fn 0 None newWorld =
               Some (Inl cerr, \<lparr>calls = k, waits = delaysUpTo (retryConfig p) k\<rparr>)"
    proof (rule retryFrom_cancelled)
      show "0 < k" using a by simp
      show "int k \<le> sint (MaxRetries (retryConfig p))" using a assms(2) by simp
      show "\<forall>i<k. \<exists>e. ?fn i = Inl e \<and> isRetryable ct (Some e)" using t a by simp
      show "\<forall>i<k. 0 < i \<longrightarrow> ctx' i = None" using a by (auto simp: timerFirst_iff)
      show "ctx' k = Some cerr" using a by simp
    qed
    then show "GenerateWithStructuredOutput ct p env ctx' prompt outputType =
              Some (Inl cerr, p, \<lparr>calls = k, waits = delaysUpTo (retryConfig p) k\<rparr>)"
      by (simp add: g)
  }
qed

theorem structured_call_retry_policy_witness:
  "initialized readyProvider \<and>
   int 2 \<le> sint (MaxRetries (retryConfig readyProvider)) \<and>
   transientFailures sampleTable
     (\<lambda>i. generate (stubEnv (failThenRespond 2)) i entityRequest) 2 \<and>
   timerFirst neverDone 2 \<and>
   generate (stubEnv (failThenRespond 2)) 2 entityRequest = Inr (ModelResponse ''{}'') \<and>
   GenerateWithStructuredOutput sampleTable readyProvider (stubEnv (failThenRespond 2))
       neverDone ''List the entities.'' ''EntityList'' =
     Some (Inr (ModelResponse ''{}''), readyProvider,
           \<lparr>calls = 3, waits = [Second, 2 * Second]\<rparr>) \<and>
   GenerateWithStructuredOutput sampleTable readyProvider (stubEnv (dottedThenInvalid 2))
       neverDone ''List the entities.'' ''EntityList'' =
     Some (Inl (WrapError
                  (''google AI structured request failed after 4 attempts: '' @
                   Error invalidOutput)
                  invalidOutput),
           readyProvider, \<lparr>calls = 3, waits = [Second, 2 * Second]\<rparr>) \<and>
   GenerateWithStructuredOutput sampleTable readyProvider (stubEnv (failThenRespond 9))
       neverDone ''List the entities.'' ''EntityList'' =
     Some (Inl (WrapError
                  (''google AI structured request failed after 4 attempts: '' @
                   Error rateLimited)
                  rateLimited),
           readyProvider, \<lparr>calls = 4, waits = [Second, 2 * Second, 4 * Second]\<rparr>) \<and>
   GenerateWithStructuredOutput sampleTable readyProvider (stubEnv (failThenRespond 2))
       (cancelledAfter 2) ''List the entities.'' ''EntityList'' =
     Some (Inl (ErrorString ''context canceled''), readyProvider,
           \<lparr>calls = 2, waits = [Second, 2 * Second]\<rparr>)"
proof -
  let ?G = "\<lambda>f c. GenerateWithStructuredOutput sampleTable readyProvider (stubEnv f) c
                     ''List the entities.'' ''EntityList''"
  let ?what = "''google AI structured request failed after ''"
  have i: "initialized readyProvider" by (simp add: readyProvider_facts)
  have m2: "int 2 \<le> sint (MaxRetries (retryConfig readyProvider))"
   and m3: "int 3 \<le> sint (MaxRetries (retryConfig readyProvider))"
    by (simp_all add: readyProvider_facts)
  have r: "entityRequest =
     \<lparr>reqGenkit = genkit readyProvider, reqModel = GetModel readyProvider,
      reqPrompt = ''List the entities.'', reqOutputType = Some ''EntityList''\<rparr>"
    by (simp add: entityRequest_def)
  have t2: "transientFailures sampleTable
              (\<lambda>i. generate (stubEnv (failThenRespond 2)) i entityRequest) 2"
    by (simp only: transientFailures_stubEnv transientFailures_failThenRespond)
  have td: "transientFailures sampleTable
              (\<lambda>i. generate (stubEnv (dottedThenInvalid 2)) i entityRequest) 2"
    by (simp only: transientFailures_stubEnv transientFailures_dottedThenInvalid)
  have "transientFailures sampleTable (failThenRespond 9) 3"
    by (rule transientFailures_mono [OF transientFailures_failThenRespond]) simp
  then have t9: "transientFailures sampleTable
              (\<lambda>i. generate (stubEnv (failThenRespond 9)) i entityRequest) 3"
    by (simp only: transientFailures_stubEnv)
  have c2: "timerFirst neverDone 2" and c3: "timerFirst neverDone 3"
    by (rule timerFirst_neverDone)+
  have g2: "generate (stubEnv (failThenRespond 2)) 2 entityRequest = Inr (ModelResponse ''{}'')"
    by (simp add: stubEnv_def failThenRespond_def)
  have gd: "generate (stubEnv (dottedThenInvalid 2)) 2 entityRequest = Inl invalidOutput"
    by (simp add: stubEnv_def dottedThenInvalid_def)
  have g9: "generate (stubEnv (failThenRespond 9)) 3 entityRequest = Inl rateLimited"
    by (simp add: stubEnv_def failThenRespond_def)
  have x9: "int 3 = sint (MaxRetries (retryConfig readyProvider))"
           "sint (MaxRetries (retryConfig readyProvider)) + 1 < 2 ^ 63"
    by (simp_all add: readyProvider_facts)
  have k2: "timerFirst (cancelledAfter 2) (2 - 1)"
    by (rule timerFirst_cancelledAfter) simp
  have k2': "cancelledAfter 2 2 = Some (ErrorString ''context canceled'')"
    by (simp add: cancelledAfter_def)
  note ok = structured_call_retry_policy [OF i m2 r t2 c2]
  note bad = structured_call_retry_policy [OF i m2 r td c2]
  note out = structured_call_retry_policy [OF i m3 r t9 c3]
  from ok g2 have a0: "?G (failThenRespond 2) neverDone =
      Some (Inr (ModelResponse ''{}''), readyProvider,
            \<lparr>calls = Suc 2, waits = delaysUpTo (retryConfig readyProvider) 2\<rparr>)"
    by blast
  from bad gd invalidOutput_fatal have b0: "?G (dottedThenInvalid 2) neverDone =
      Some (Inl (attemptsError ?what (retryConfig readyProvider) (Some invalidOutput)),
            readyProvider,
            \<lparr>calls = Suc 2, waits = delaysUpTo (retryConfig readyProvider) 2\<rparr>)"
    by blast
  from out g9 rateLimited_retryable x9 have c0: "?G (failThenRespond 9) neverDone =
      Some (Inl (attemptsError ?what (retryConfig readyProvider) (Some rateLimited)),
            readyProvider,
            \<lparr>calls = Suc 3, waits = delaysUpTo (retryConfig readyProvider) 3\<rparr>)"
    by blast
  have "0 < (2::nat) \<and> (2::nat) \<le> 2" by simp
  with ok k2 k2' have d0: "?G (failThenRespond 2) (cancelledAfter 2) =
      Some (Inl (ErrorString ''context canceled''), readyProvider,
            \<lparr>calls = 2, waits = delaysUpTo (retryConfig readyProvider) 2\<rparr>)"
    by blast
  have a: "?G (failThenRespond 2) neverDone =
      Some (Inr (ModelResponse ''{}''), readyProvider,
            \<lparr>calls = 3, waits = [Second, 2 * Second]\<rparr>)"
    using a0 by (simp only: readyProvider_delays) simp
  have b: "?G (dottedThenInvalid 2) neverDone =
      Some (Inl (WrapError (?what @ ''4 attempts: '' @ Error invalidOutput) invalidOutput),
            readyProvider, \<lparr>calls = 3, waits = [Second, 2 * Second]\<rparr>)"
    using b0 by (simp only: readyProvider_delays readyProvider_attemptsError) simp
  have c: "?G (failThenRespond 9) neverDone =
      Some (Inl (WrapError (?what @ ''4 attempts: '' @ Error rateLimited) rateLimited),
            readyProvider, \<lparr>calls = 4, waits = [Second, 2 * Second, 4 * Second]\<rparr>)"
    using c0 by (simp only: readyProvider_delays readyProvider_attemptsError) simp
  have d: "?G (failThenRespond 2) (cancelledAfter 2) =
      Some (Inl (ErrorString ''context canceled''), readyProvider,
            \<lparr>calls = 2, waits = [Second, 2 * Second]\<rparr>)"
    using d0 by (simp only: readyProvider_delays)
  from b have b': "?G (dottedThenInvalid 2) neverDone =
      Some (Inl (WrapError
                  (''google AI structured request failed after 4 attempts: '' @
                   Error invalidOutput)
                  invalidOutput),
           readyProvider, \<lparr>calls = 3, waits = [Second, 2 * Second]\<rparr>)"
    by simp
  from c have c': "?G (failThenRespond 9) neverDone =
      Some (Inl (WrapError
                  (''google AI structured request failed after 4 attempts: '' @
                   Error rateLimited)
                  rateLimited),
           readyProvider, \<lparr>calls = 4, waits = [Second, 2 * Second, 4 * Second]\<rparr>)"
    by simp
  from i m2 t2 c2 g2 a b' c' d show ?thesis by blast
qed

section \<open>Before and after initialization\<close>

lemma Initialize_no_key:
  assumes "cfg ''api_key'' = None \<or> cfg ''api_key'' = Some (VString [])"
  shows "Initialize p ie cfg =
           (Some (New (errorHandler p) ''Google AI API key is required''
                    (Map.empty(''config'' \<mapsto> VMap cfg))), p)"
  using assms
  by (auto simp: Initialize_def parseConfig_def asString_def Let_def split: option.splits)

lemma Initialize_effect:
  assumes "Initialize p ie cfg = (r, p')"
  shows "(r = None \<longrightarrow> initialized p' \<and> APIKey (config p') \<noteq> []) \<and>
         (r \<noteq> None \<longrightarrow> initialized p' = initialized p) \<and>
         (APIKey (config p) \<noteq> [] \<longrightarrow> APIKey (config p') \<noteq> [])"
  using assms
  by (auto simp: Initialize_def parseConfig_def Let_def
      split: option.splits sum.splits if_splits)

lemma initializeAll_initialized:
  "initialized (snd (initializeAll p cs)) \<longleftrightarrow>
     initialized p \<or> None \<in> set (fst (initializeAll p cs))"
proof (induction cs arbitrary: p)
  case Nil
  then show ?case by simp
next
  case (Cons c cs)
  obtain ie cfg where c: "c = (ie, cfg)" by (cases c)
  obtain r p' where i: "Initialize p ie cfg = (r, p')" by (cases "Initialize p ie cfg")
  obtain rs p'' where a: "initializeAll p' cs = (rs, p'')" by (cases "initializeAll p' cs")
  have "initialized p'' \<longleftrightarrow> initialized p' \<or> None \<in> set rs"
    using Cons.IH [of p'] a by simp
  moreover have "initialized p' \<longleftrightarrow> initialized p \<or> r = None"
    using Initialize_effect [OF i] by (cases r) auto
  ultimately show ?case using c i a by auto
qed

lemma initializeAll_key:
  assumes "initialized p \<longrightarrow> APIKey (config p) \<noteq> []"
  shows "initialized (snd (initializeAll p cs)) \<longrightarrow>
           APIKey (config (snd (initializeAll p cs))) \<noteq> []"
  using assms
proof (induction cs arbitrary: p)
  case Nil
  then show ?case by simp
next
  case (Cons c cs)
  obtain ie cfg where c: "c = (ie, cfg)" by (cases c)
  obtain r p' where i: "Initialize p ie cfg = (r, p')" by (cases "Initialize p ie cfg")
  have "initialized p' \<longrightarrow> APIKey (config p') \<noteq> []"
    using Initialize_effect [OF i] Cons.prems by (cases r) auto
  from Cons.IH [OF this] show ?case using c i by (cases "initializeAll p' cs") simp
qed

lemma Initialize_working:
  "Initialize (NewGoogleAIProvider plainHandler) workingInit keyConfig =
     (None, (NewGoogleAIProvider plainHandler)
              \<lparr>config := \<lparr>APIKey = ''key'', DefaultModel = ''gemini-1.5-flash''\<rparr>,
               genkit := Some (Genkit 0), initialized := True\<rparr>)"
  by (simp add: Initialize_def parseConfig_def asString_def workingInit_def keyConfig_def
      Let_def)

lemma readyProvider_reachable:
  "readyProvider = snd (Initialize (NewGoogleAIProvider plainHandler) workingInit keyConfig)"
  by (simp add: Initialize_working readyProvider_def)

text \<open>
  C9: on a provider on which no call of \<^verbatim>\<open>Initialize\<close> has succeeded so far,
  \<^verbatim>\<open>GenerateText\<close>, \<^verbatim>\<open>GenerateWithStructuredOutput\<close> and \<^verbatim>\<open>CallTool\<close> return the
  error "provider not initialized", invoke the model zero times and leave the provider as
  it was.
\<close>

theorem calls_before_initialization_fail:
  assumes "\<not> initialized p0" and "None \<notin> set (fst (initializeAll p0 cs))"
      and "p = snd (initializeAll p0 cs)"
  shows "GenerateText ct p env ctx prompt =
           Some (Inl (ErrorString ''provider not initialized''), p, \<lparr>calls = 0, waits = []\<rparr>) \<and>
         GenerateWithStructuredOutput ct p env ctx prompt outputType =
           Some (Inl (ErrorString ''provider not initialized''), p, \<lparr>calls = 0, waits = []\<rparr>) \<and>
         CallTool ct p env ctx toolName params =
           Some ((None, Some (ErrorString ''provider not initialized'')), p,
                 \<lparr>calls = 0, waits = []\<rparr>)"
proof -
  have "\<not> initialized p"
    using assms initializeAll_initialized [of p0 cs] by simp
  then show ?thesis
    by (simp add: GenerateText_def GenerateWithStructuredOutput_def CallTool_def newWorld_def)
qed

theorem calls_before_initialization_fail_witness:
  "\<not> initialized (NewGoogleAIProvider plainHandler) \<and>
   None \<notin> set (fst (initializeAll (NewGoogleAIProvider plainHandler)
                       [(workingInit, noKeyConfig)])) \<and>
   NewGoogleAIProvider plainHandler =
     snd (initializeAll (NewGoogleAIProvider plainHandler) [(workingInit, noKeyConfig)]) \<and>
   GenerateText sampleTable (NewGoogleAIProvider plainHandler) (stubEnv (failThenRespond 0)) neverDone
       ''hello'' =
     Some (Inl (ErrorString ''provider not initialized''), NewGoogleAIProvider plainHandler,
           \<lparr>calls = 0, waits = []\<rparr>) \<and>
   GenerateWithStructuredOutput sampleTable (NewGoogleAIProvider plainHandler)
       (stubEnv (failThenRespond 0)) neverDone ''hello'' ''Answer'' =
     Some (Inl (ErrorString ''provider not initialized''), NewGoogleAIProvider plainHandler,
           \<lparr>calls = 0, waits = []\<rparr>) \<and>
   CallTool sampleTable (NewGoogleAIProvider plainHandler) (stubEnv (failThenRespond 0)) neverDone
       ''search'' Map.empty =
     Some ((None, Some (ErrorString ''provider not initialized'')),
           NewGoogleAIProvider plainHandler, \<lparr>calls = 0, waits = []\<rparr>)"
proof -
  let ?p0 = "NewGoogleAIProvider plainHandler"
  have n: "\<not> initialized ?p0" by (simp add: NewGoogleAIProvider_def)
  have k: "noKeyConfig ''api_key'' = None \<or> noKeyConfig ''api_key'' = Some (VString [])"
    by (simp add: noKeyConfig_def)
  have i: "Initialize ?p0 workingInit noKeyConfig =
           (Some (New (errorHandler ?p0) ''Google AI API key is required''
                    (Map.empty(''config'' \<mapsto> VMap noKeyConfig))), ?p0)"
    using k by (rule Initialize_no_key)
  have s: "None \<notin> set (fst (initializeAll ?p0 [(workingInit, noKeyConfig)]))"
    by (simp add: i)
  have e: "?p0 = snd (initializeAll ?p0 [(workingInit, noKeyConfig)])"
    by (simp add: i)
  from calls_before_initialization_fail [OF n s e] n s e show ?thesis by blast
qed

text \<open>
  C10: after any sequence of calls of \<^verbatim>\<open>Initialize\<close> on a new provider,
  \<^verbatim>\<open>IsAvailable\<close> is true exactly when one of the calls returned no error; and a call
  of \<^verbatim>\<open>Initialize\<close> whose map has no \<^verbatim>\<open>api_key\<close>, or an empty one, returns an error
  and leaves the provider as it was, so a provider that was not initialized stays
  uninitialized and unavailable.
\<close>

theorem available_iff_initialize_succeeded:
  "(IsAvailable (snd (initializeAll (NewGoogleAIProvider eh) cs)) \<longleftrightarrow>
      None \<in> set (fst (initializeAll (NewGoogleAIProvider eh) cs))) \<and>
   (cfg ''api_key'' = None \<or> cfg ''api_key'' = Some (VString []) \<longrightarrow>
      fst (Initialize p ie cfg) \<noteq> None \<and> snd (Initialize p ie cfg) = p \<and>
      (\<not> initialized p \<longrightarrow>
         \<not> initialized (snd (Initialize p ie cfg)) \<and> \<not> IsAvailable (snd (Initialize p ie cfg))))"
proof (intro conjI impI)
  let ?p0 = "NewGoogleAIProvider eh"
  have n: "\<not> initialized ?p0" by (simp add: NewGoogleAIProvider_def)
  then have "initialized (snd (initializeAll ?p0 cs)) \<longrightarrow>
             APIKey (config (snd (initializeAll ?p0 cs))) \<noteq> []"
    by (intro initializeAll_key) simp
  then have "IsAvailable (snd (initializeAll ?p0 cs)) \<longleftrightarrow>
             initialized (snd (initializeAll ?p0 cs))"
    by (auto simp: IsAvailable_def)
  then show "IsAvailable (snd (initializeAll ?p0 cs)) \<longleftrightarrow>
             None \<in> set (fst (initializeAll ?p0 cs))"
    using initializeAll_initialized [of ?p0 cs] n by simp
next
  assume "cfg ''api_key'' = None \<or> cfg ''api_key'' = Some (VString [])"
  then have i: "Initialize p ie cfg =
           (Some (New (errorHandler p) ''Google AI API key is required''
                    (Map.empty(''config'' \<mapsto> VMap cfg))), p)"
    by (rule Initialize_no_key)
  show "fst (Initialize p ie cfg) \<noteq> None" by (simp add: i)
  show "snd (Initialize p ie cfg) = p" by (simp add: i)
  assume n: "\<not> initialized p"
  then show "\<not> initialized (snd (Initialize p ie cfg))" by (simp add: i)
  from n show "\<not> IsAvailable (snd (Initialize p ie cfg))" by (simp add: i IsAvailable_def)
qed

theorem available_iff_initialize_succeeded_witness:
  "IsAvailable (snd (initializeAll (NewGoogleAIProvider plainHandler)
                       [(workingInit, noKeyConfig), (workingInit, keyConfig)])) \<and>
   None \<in> set (fst (initializeAll (NewGoogleAIProvider plainHandler)
                       [(workingInit, noKeyConfig), (workingInit, keyConfig)])) \<and>
   noKeyConfig ''api_key'' = None \<and>
   fst (Initialize (NewGoogleAIProvider plainHandler) workingInit noKeyConfig) \<noteq> None \<and>
   snd (Initialize (NewGoogleAIProvider plainHandler) workingInit noKeyConfig) =
     NewGoogleAIProvider plainHandler \<and>
   \<not> initialized (NewGoogleAIProvider plainHandler) \<and>
   \<not> IsAvailable (snd (Initialize (NewGoogleAIProvider plainHandler) workingInit noKeyConfig))"
proof -
  let ?p0 = "NewGoogleAIProvider plainHandler"
  let ?cs = "[(workingInit, noKeyConfig), (workingInit, keyConfig)]"
  have k: "noKeyConfig ''api_key'' = None" by (simp add: noKeyConfig_def)
  then have k': "noKeyConfig ''api_key'' = None \<or> noKeyConfig ''api_key'' = Some (VString [])"
    by simp
  have n: "\<not> initialized ?p0" by (simp add: NewGoogleAIProvider_def)
  have i: "Initialize ?p0 workingInit noKeyConfig =
           (Some (New (errorHandler ?p0) ''Google AI API key is required''
                    (Map.empty(''config'' \<mapsto> VMap noKeyConfig))), ?p0)"
    using k' by (rule Initialize_no_key)
  have s: "None \<in> set (fst (initializeAll ?p0 ?cs))"
    by (simp add: i Initialize_working)
  note inst = available_iff_initialize_succeeded [of plainHandler ?cs noKeyConfig ?p0 workingInit]
  from inst s have a: "IsAvailable (snd (initializeAll ?p0 ?cs))" by blast
  from inst k' n have b: "fst (Initialize ?p0 workingInit noKeyConfig) \<noteq> None"
    "snd (Initialize ?p0 workingInit noKeyConfig) = ?p0"
    "\<not> IsAvailable (snd (Initialize ?p0 workingInit noKeyConfig))"
    by blast+
  from a s k b n show ?thesis by blast
qed

section \<open>The fallback provider\<close>

lemma GenerateText_exhausted:
  assumes "initialized p" and "int k = sint (MaxRetries (retryConfig p))"
      and "int k + 1 < 2 ^ 63"
      and "r = \<lparr>reqGenkit = genkit p, reqModel = GetModel p, reqPrompt = prompt,
                reqOutputType = None\<rparr>"
      and "\<forall>i\<le>k. \<exists>e. generate env i r = Inl e \<and> isRetryable ct (Some e)"
      and "timerFirst ctx k"
  shows "GenerateText ct p env ctx prompt =
           Some (Inl (attemptsError ''google AI request failed after '' (retryConfig p)
                        (errOf (generate env k r))),
                 p, \<lparr>calls = Suc k, waits = delaysUpTo (retryConfig p) k\<rparr>)"
proof -
  let ?fn = "\<lambda>i. genkitGenerateText env i r"
  have f: "\<forall>i\<le>k. \<exists>e. ?fn i = Inl e \<and> isRetryable ct (Some e)"
    using assms(5) by (auto simp: genkitGenerateText_def)
  have "retryFrom ct ''google AI request failed after '' (retryConfig p) ctx ?fn 0 None newWorld =
        Some (Inl (attemptsError ''google AI request failed after '' (retryConfig p)
                     (errOf (?fn k))),
              \<lparr>calls = Suc k, waits = delaysUpTo (retryConfig p) k\<rparr>)"
    using assms(2,3,6) f by (intro retryFrom_exhausted) (simp_all add: timerFirst_iff)
  moreover have "errOf (?fn k) = errOf (generate env k r)"
    by (simp add: genkitGenerateText_def errOf_def split: sum.splits)
  ultimately show ?thesis
    using assms(1,4) by (simp add: GenerateText_def withRetry_def)
qed

lemma GenerateText_first_success:
  assumes "initialized p" and "0 \<le> sint (MaxRetries (retryConfig p))"
      and "generate env 0 \<lparr>reqGenkit = genkit p, reqModel = GetModel p, reqPrompt = prompt,
                reqOutputType = None\<rparr> = Inr resp"
  shows "GenerateText ct p env ctx prompt = Some (Inr (Text resp), p, \<lparr>calls = 1, waits = []\<rparr>)"
proof -
  have "retryFrom ct ''google AI request failed after '' (retryConfig p) ctx
          (\<lambda>i. genkitGenerateText env i
              \<lparr>reqGenkit = genkit p, reqModel = GetModel p, reqPrompt = prompt,
                reqOutputType = None\<rparr>) 0 None newWorld =
        Some (Inr (Text resp), \<lparr>calls = 1, waits = []\<rparr>)"
    using assms(2,3) by (intro retryFrom_first_success) (simp_all add: genkitGenerateText_def)
  then show ?thesis using assms(1) by (simp add: GenerateText_def withRetry_def)
qed

text \<open>
  C5: if a fallback provider is configured and the primary provider is unavailable or
  exhausts its retries, the Gateway attempts the fallback exactly once, after the
  primary, and returns what that one attempt returns: its failure, if it fails.
\<close>

theorem fallback_attempted_once:
  assumes "providers m (fallback m) = Some f"
      and "primaryUnavailable m \<or> primaryExhausts ct m envs ctxs prompt"
      and "GenerateText ct f (envs (fallback m)) (ctxs (fallback m)) prompt = Some (rf, f', w1)"
  shows "gatewayGenerateText ct m envs ctxs prompt =
           Some (rf, (if primaryUnavailable m then [] else [Primary]) @ [Fallback]) \<and>
         count_list ((if primaryUnavailable m then [] else [Primary]) @ [Fallback]) Fallback = 1"
proof (cases "primaryUnavailable m")
  case True
  then have "primaryAttempt ct m envs ctxs prompt =
             Some (Inl (ErrorString ''provider unavailable''), [], True)"
    by (auto simp: primaryUnavailable_def primaryAttempt_def split: option.splits)
  then show ?thesis
    using True assms(1,3) by (simp add: gatewayGenerateText_def)
next
  case False
  with assms(2) have ex: "primaryExhausts ct m envs ctxs prompt" by simp
  then obtain p where p1: "providers m (primary m) = Some p" "IsAvailable p"
    by (auto simp: primaryExhausts_def split: option.splits)
  with ex obtain r p' w where
    g: "GenerateText ct p (envs (primary m)) (ctxs (primary m)) prompt = Some (r, p', w)"
    by (auto simp: primaryExhausts_def split: option.splits)
  with ex p1 obtain err where
    r: "r = Inl err" "int (calls w) = sint (MaxRetries (retryConfig p)) + 1"
    by (cases r) (simp_all add: primaryExhausts_def)
  note p = p1 g [unfolded r(1)] r(2)
  from p have "primaryAttempt ct m envs ctxs prompt = Some (Inl err, [Primary], True)"
    by (simp add: primaryAttempt_def)
  then show ?thesis
    using False assms(1,3) by (simp add: gatewayGenerateText_def)
qed

theorem fallback_attempted_once_witness:
  "providers demoManager (fallback demoManager) = Some readyProvider \<and>
   primaryExhausts sampleTable demoManager demoEnvs demoCtxs ''What is a chunk?'' \<and>
   GenerateText sampleTable readyProvider (demoEnvs (fallback demoManager)) (demoCtxs (fallback demoManager))
       ''What is a chunk?'' =
     Some (Inr ''{}'', readyProvider, \<lparr>calls = 1, waits = []\<rparr>) \<and>
   gatewayGenerateText sampleTable demoManager demoEnvs demoCtxs ''What is a chunk?'' =
     Some (Inr ''{}'', [Primary, Fallback])"
proof -
  let ?q = "''What is a chunk?''"
  have f: "providers demoManager (fallback demoManager) = Some readyProvider"
    by (simp add: demoManager_def)
  have pr: "providers demoManager (primary demoManager) = Some readyProvider"
    by (simp add: demoManager_def)
  have g: "GenerateText sampleTable readyProvider (demoEnvs (fallback demoManager))
             (demoCtxs (fallback demoManager)) ?q =
           Some (Inr ''{}'', readyProvider, \<lparr>calls = 1, waits = []\<rparr>)"
    using GenerateText_first_success [where p = readyProvider
        and env = "stubEnv (failThenRespond 0)" and prompt = ?q
        and resp = "ModelResponse ''{}''" and ctx = neverDone and ct = sampleTable]
    by (simp add: readyProvider_facts demoManager_def demoEnvs_def demoCtxs_def stubEnv_def
        failThenRespond_def)
  have "GenerateText sampleTable readyProvider (stubEnv (failThenRespond 9)) neverDone ?q =
           Some (Inl (attemptsError ''google AI request failed after '' (retryConfig readyProvider)
                        (errOf (generate (stubEnv (failThenRespond 9)) 3
                           \<lparr>reqGenkit = genkit readyProvider, reqModel = GetModel readyProvider,
                            reqPrompt = ?q, reqOutputType = None\<rparr>))),
                 readyProvider,
                 \<lparr>calls = Suc 3, waits = delaysUpTo (retryConfig readyProvider) 3\<rparr>)"
    by (rule GenerateText_exhausted)
       (simp_all add: readyProvider_facts stubEnv_def failThenRespond_def rateLimited_retryable
          timerFirst_neverDone)
  then have e: "primaryExhausts sampleTable demoManager demoEnvs demoCtxs ?q"
    by (simp add: primaryExhausts_def pr readyProvider_facts demoManager_def demoEnvs_def
        demoCtxs_def)
  then have u: "\<not> primaryUnavailable demoManager"
    by (simp add: primaryUnavailable_def pr readyProvider_facts)
  from fallback_attempted_once [OF f disjI2 [OF e] g] u
  have "gatewayGenerateText sampleTable demoManager demoEnvs demoCtxs ?q =
          Some (Inr ''{}'', [Primary, Fallback])"
    by simp
  with f e g show ?thesis by blast
qed

end
